theory Spec2Isabelle
  imports Main "HOL-Library.Word"
begin

section \<open>The streamer and the world around it\<close>

text \<open>
  A shallow embedding of \<^verbatim>\<open>src/Streamer.cpp\<close>. The program is a single thread that talks
  to the operating system, to the Ice run time and to a global flag set by a signal
  handler. Each of these interactions is recorded, in order, in a trace kept in the
  state; what the outside answers is read from a \<open>world\<close>, indexed by the position of
  the interaction in the trace. A world is therefore a complete script of one run.
\<close>

type_synonym byte = "8 word"

datatype level = Info | Error

record stream_entry =
  streamName :: string
  endpoint :: string
  videoSize :: string
  bitRate :: string
  keyword :: "string list"

text \<open>
  The system calls of the source, with the arguments that matter.
  \<open>Sys_socket_nonblock\<close> is \<^verbatim>\<open>socket(AF_INET, SOCK_STREAM | SOCK_NONBLOCK, 0)\<close>,
  \<open>Sys_socket\<close> is \<^verbatim>\<open>socket(AF_INET, SOCK_STREAM, 0)\<close>; ports are given as
  \<^verbatim>\<open>htons\<close> sees them, modulo \<open>2 ^ 16\<close>; \<open>Sys_usleep\<close> takes microseconds;
  \<open>Sys_getMSTime\<close> is the clock of \<^verbatim>\<open>Util.h\<close>, in milliseconds.
\<close>

datatype syscall =
    Sys_socket_nonblock
  | Sys_socket
  | Sys_bind int int
  | Sys_listen int int
  | Sys_setsockopt_reuseaddr int
  | Sys_fork
  | Sys_execlp string "string list"
  | Sys_gethostbyname string
  | Sys_connect int string int
  | Sys_usleep int
  | Sys_accept4 int
  | Sys_write int "byte list"
  | Sys_getMSTime
  | Sys_shutdown int
  | Sys_close int
  | Sys_kill_SIGTERM int
  | Sys_wait

text \<open>
  The calls into the Ice run time. An Ice invocation has no error return: it either
  returns or raises a C++ exception (\<^verbatim>\<open>Ice::LocalException\<close>), and the source has no
  \<^verbatim>\<open>try\<close> block, so a raised exception leaves every function of the source.
\<close>

datatype ice_call =
    Ice_propertyToProxy string
  | Ice_checkedCast
  | Ice_NewStream stream_entry
  | Ice_CloseStream stream_entry

datatype ice_answer = Ice_ok | Ice_null | Ice_exception

datatype event =
    Poll_early_exit bool
  | Log level string "string list"
  | Sys syscall int
  | Sys_read int int int "byte list option"
  | Ice ice_call ice_answer

record world =
  early_exit_at :: "nat \<Rightarrow> bool"
  sys_result :: "nat \<Rightarrow> syscall \<Rightarrow> int"
  read_result :: "nat \<Rightarrow> byte list option"
  ice_result :: "nat \<Rightarrow> ice_call \<Rightarrow> ice_answer"

text \<open>
  The members of \<^verbatim>\<open>Streamer\<close> that the source uses, and the trace. \<open>portal\<close> says
  whether the proxy handle \<^verbatim>\<open>_portal\<close> is non-null; \<open>clientList\<close> is the
  \<^verbatim>\<open>std::list<int>\<close> of client sockets, front first.
\<close>

record streamer =
  videoFilePath :: string
  transport :: string
  host :: string
  listenPort :: int
  ffmpegPort :: int
  streamEntry :: stream_entry
  portal :: bool
  listenSocketFd :: int
  ffmpegSocketFd :: int
  ffmpegPid :: int
  clientList :: "int list"
  trace :: "event list"

text \<open>
  How a function of the source ends: it returns, an Ice exception leaves it, or (in the
  child of \<^verbatim>\<open>fork\<close>) \<^verbatim>\<open>execlp\<close> replaces the process image.
\<close>

datatype 'a outcome = Returns 'a | Throws | Execs

definition LISTEN_BACKLOG :: int where
  "LISTEN_BACKLOG = 10"

definition BUFFER_SIZE :: int where
  "BUFFER_SIZE = 256"

subsection \<open>Interactions\<close>

definition emit :: "event \<Rightarrow> streamer \<Rightarrow> streamer" where
  "emit e s = s\<lparr>trace := trace s @ [e]\<rparr>"

definition sys :: "world \<Rightarrow> syscall \<Rightarrow> streamer \<Rightarrow> int \<times> streamer" where
  "sys w c s = (let r = sys_result w (length (trace s)) c in (r, emit (Sys c r) s))"

text \<open>
  \<^verbatim>\<open>read(fd, buffer + offset, count)\<close>: \<open>None\<close> is a negative return value; otherwise
  the bytes delivered, never more than \<open>count\<close> of them; no bytes at all is end of stream.
\<close>

definition sys_read :: "world \<Rightarrow> int \<Rightarrow> int \<Rightarrow> int \<Rightarrow> streamer \<Rightarrow> byte list option \<times> streamer" where
  "sys_read w fd offset count s =
     (let r = map_option (take (nat count)) (read_result w (length (trace s)))
      in (r, emit (Sys_read fd offset count r) s))"

definition ice :: "world \<Rightarrow> ice_call \<Rightarrow> streamer \<Rightarrow> ice_answer \<times> streamer" where
  "ice w c s = (let r = ice_result w (length (trace s)) c in (r, emit (Ice c r) s))"

text \<open>Reading the global \<^verbatim>\<open>early_exit\<close>, which the SIGINT handler sets.\<close>

definition poll_early_exit :: "world \<Rightarrow> streamer \<Rightarrow> bool \<times> streamer" where
  "poll_early_exit w s =
     (let b = early_exit_at w (length (trace s)) in (b, emit (Poll_early_exit b) s))"

definition LOG_INFO :: "string \<Rightarrow> string list \<Rightarrow> streamer \<Rightarrow> streamer" where
  "LOG_INFO fmt args s = emit (Log Info fmt args) s"

definition LOG_ERROR :: "string \<Rightarrow> string list \<Rightarrow> streamer \<Rightarrow> streamer" where
  "LOG_ERROR fmt args s = emit (Log Error fmt args) s"

subsection \<open>\<^verbatim>\<open>std::to_string\<close> on an \<^verbatim>\<open>int\<close>\<close>

definition digit_char :: "nat \<Rightarrow> char" where
  "digit_char d = ''0123456789'' ! d"

fun to_string_nat :: "nat \<Rightarrow> string" where
  "to_string_nat n =
     (if n < 10 then [digit_char n] else to_string_nat (n div 10) @ [digit_char (n mod 10)])"

declare to_string_nat.simps [simp del]

definition to_string :: "int \<Rightarrow> string" where
  "to_string i = (if i < 0 then CHR ''-'' # to_string_nat (nat (- i)) else to_string_nat (nat i))"

section \<open>Close\<close>

text \<open>Lines 243 to 248: the clients are taken from the front of the list and closed.\<close>

function Close_clients :: "world \<Rightarrow> streamer \<Rightarrow> streamer" where
  "Close_clients w s =
     (if clientList s \<noteq> [] then
        (let clientSocket = hd (clientList s);
             s1 = s\<lparr>clientList := tl (clientList s)\<rparr>;
             s2 = snd (sys w (Sys_close clientSocket) s1)
         in Close_clients w s2)
      else s)"
  by pat_completeness auto
termination
  by (relation "measure (\<lambda>(w, s). length (clientList s))")
     (auto simp: sys_def emit_def Let_def)

declare Close_clients.simps [simp del]

text \<open>Lines 250 to 260: a socket is shut down and closed when its descriptor is positive.\<close>

definition Close_socket :: "world \<Rightarrow> int \<Rightarrow> streamer \<Rightarrow> streamer" where
  "Close_socket w fd s =
     (if fd > 0 then
        (let s1 = snd (sys w (Sys_shutdown fd) s);
             s2 = snd (sys w (Sys_close fd) s1)
         in s2)
      else s)"

text \<open>Lines 265 to 272: the transcoder is signalled and reaped when its pid is positive.\<close>

definition Close_ffmpeg :: "world \<Rightarrow> streamer \<Rightarrow> streamer" where
  "Close_ffmpeg w s =
     (if ffmpegPid s > 0 then
        (let s1 = LOG_INFO ''Sending SIGTERM to ffmpeg...'' [] s;
             s2 = snd (sys w (Sys_kill_SIGTERM (ffmpegPid s1)) s1);
             s3 = LOG_INFO ''Waiting on ffmpeg to exit...'' [] s2;
             s4 = snd (sys w Sys_wait s3)
         in s4)
      else s)"

text \<open>
  \<^verbatim>\<open>Streamer::Close\<close>, lines 241 to 273. The return values of \<^verbatim>\<open>close\<close>,
  \<^verbatim>\<open>shutdown\<close>, \<^verbatim>\<open>kill\<close> and \<^verbatim>\<open>wait\<close> are not looked at. \<^verbatim>\<open>CloseStream\<close> is
  an Ice invocation of a \<^verbatim>\<open>void\<close> operation: when it raises, the exception leaves
  \<^verbatim>\<open>Close\<close> at line 263.
\<close>

definition Close :: "world \<Rightarrow> streamer \<Rightarrow> unit outcome \<times> streamer" where
  "Close w s =
     (let s1 = Close_clients w s;
          s2 = Close_socket w (listenSocketFd s1) s1;
          s3 = Close_socket w (ffmpegSocketFd s2) s2
      in if portal s3 then
           (case ice w (Ice_CloseStream (streamEntry s3)) s3 of
              (Ice_exception, s4) \<Rightarrow> (Throws, s4)
            | (_, s4) \<Rightarrow> (Returns (), Close_ffmpeg w s4))
         else (Returns (), Close_ffmpeg w s3))"

section \<open>Run\<close>

text \<open>
  The loops of \<^verbatim>\<open>Run\<close> have no bound of their own: each takes a number of
  iterations it may still make (fuel) and yields \<open>None\<close> when that is used up.
\<close>

text \<open>
  Lines 300 to 316, the read loop, at the point where \<open>remaining\<close> bytes are missing.
  \<open>buffer\<close> holds the bytes written so far, \<^verbatim>\<open>buffer[0 .. offset)\<close>; the rest of the
  array is indeterminate. The loop leaves \<^verbatim>\<open>Run\<close> at line 305 (\<open>Return_early_exit\<close>)
  or at line 312 (\<open>Return_read_failed\<close>), or falls through to line 318 with the buffer.
\<close>

datatype read_exit = Return_early_exit | Return_read_failed | Chunk "byte list"

fun Run_readChunk ::
  "nat \<Rightarrow> world \<Rightarrow> int \<Rightarrow> byte list \<Rightarrow> streamer \<Rightarrow> (read_exit \<times> streamer) option" where
  "Run_readChunk 0 w remaining buffer s = None"
| "Run_readChunk (Suc k) w remaining buffer s =
     (if remaining > 0 then
        (case poll_early_exit w s of
           (True, s1) \<Rightarrow> Some (Return_early_exit, s1)
         | (False, s1) \<Rightarrow>
             (let offset = BUFFER_SIZE - remaining
              in case sys_read w (ffmpegSocketFd s1) offset remaining s1 of
                   (None, s2) \<Rightarrow>
                     Some (Return_read_failed, LOG_ERROR ''ffmpeg socket read failed'' [] s2)
                 | (Some bytes, s2) \<Rightarrow>
                     Run_readChunk k w (remaining - int (length bytes))
                       (take (nat offset) buffer @ bytes) s2))
      else Some (Chunk buffer, s))"

text \<open>
  Lines 319 to 328: \<^verbatim>\<open>remove_if\<close> applies the predicate once to each element, front
  to back, and keeps the elements on which it is false. The predicate writes the buffer
  to the socket and is true when \<^verbatim>\<open>write\<close> returns a negative value.
\<close>

fun remove_if_write :: "world \<Rightarrow> byte list \<Rightarrow> int list \<Rightarrow> streamer \<Rightarrow> int list \<times> streamer" where
  "remove_if_write w buffer [] s = ([], s)"
| "remove_if_write w buffer (clientSocket # rest) s =
     (case sys w (Sys_write clientSocket buffer) s of
        (r, s1) \<Rightarrow>
          if r < 0 then
            remove_if_write w buffer rest
              (LOG_INFO ''Removing client fd %d from client list'' [to_string clientSocket] s1)
          else
            (case remove_if_write w buffer rest s1 of
               (kept, s2) \<Rightarrow> (clientSocket # kept, s2)))"

definition Run_broadcastAndPrune :: "world \<Rightarrow> byte list \<Rightarrow> streamer \<Rightarrow> streamer" where
  "Run_broadcastAndPrune w buffer s =
     (case remove_if_write w buffer (clientList s) s of
        (kept, s1) \<Rightarrow> s1\<lparr>clientList := kept\<rparr>)"

definition sleepTime :: int where
  "sleepTime = 20"

definition tickTimer :: int where
  "tickTimer = 30"

text \<open>
  Lines 298 to 334, the send loop. It ends by \<^verbatim>\<open>break\<close> (line 333) or by one of the
  two \<^verbatim>\<open>return\<close>s of the read loop.
\<close>

datatype send_exit = Break | Return

fun Run_send :: "nat \<Rightarrow> world \<Rightarrow> int \<Rightarrow> streamer \<Rightarrow> (send_exit \<times> streamer) option" where
  "Run_send 0 w timeBeforeTick s = None"
| "Run_send (Suc k) w timeBeforeTick s =
     (case Run_readChunk k w BUFFER_SIZE [] s of
        None \<Rightarrow> None
      | Some (Return_early_exit, s1) \<Rightarrow> Some (Return, s1)
      | Some (Return_read_failed, s1) \<Rightarrow> Some (Return, s1)
      | Some (Chunk buffer, s1) \<Rightarrow>
          (let s2 = Run_broadcastAndPrune w buffer s1
           in case sys w Sys_getMSTime s2 of
                (now, s3) \<Rightarrow>
                  if now - timeBeforeTick > tickTimer then Some (Break, s3)
                  else Run_send k w timeBeforeTick s3))"

text \<open>Lines 284 to 294: the accept step, the sleep and the clock reading of one cycle.\<close>

definition Run_accept :: "world \<Rightarrow> streamer \<Rightarrow> int \<times> streamer" where
  "Run_accept w s =
     (case sys w (Sys_accept4 (listenSocketFd s)) s of
        (clientSocket, s1) \<Rightarrow>
          (let s2 = (if clientSocket > 0 then
                       LOG_INFO ''Accepted new client, fd %d'' [to_string clientSocket]
                         (s1\<lparr>clientList := clientList s1 @ [clientSocket]\<rparr>)
                     else s1);
               s3 = snd (sys w (Sys_usleep (sleepTime * 1000)) s2)
           in sys w Sys_getMSTime s3))"

text \<open>Lines 284 to 334: one cycle of the outer loop.\<close>

definition Run_cycle :: "nat \<Rightarrow> world \<Rightarrow> streamer \<Rightarrow> (send_exit \<times> streamer) option" where
  "Run_cycle k w s =
     (case Run_accept w s of (timeBeforeTick, s1) \<Rightarrow> Run_send k w timeBeforeTick s1)"

fun Run_loop :: "nat \<Rightarrow> world \<Rightarrow> streamer \<Rightarrow> streamer option" where
  "Run_loop 0 w s = None"
| "Run_loop (Suc k) w s =
     (case Run_cycle k w s of
        None \<Rightarrow> None
      | Some (Return, s1) \<Rightarrow> Some s1
      | Some (Break, s1) \<Rightarrow> Run_loop k w s1)"

text \<open>\<^verbatim>\<open>Streamer::Run\<close>, lines 275 to 336.\<close>

definition Run :: "nat \<Rightarrow> world \<Rightarrow> streamer \<Rightarrow> streamer option" where
  "Run k w s = Run_loop k w (LOG_INFO ''Streamer ready'' [] s)"

section \<open>Initialize\<close>

text \<open>
  Lines 138 to 145. \<^verbatim>\<open>propertyToProxy\<close> yields a proxy or a null proxy;
  \<^verbatim>\<open>checkedCast\<close> of a null proxy is null without a remote call, and otherwise asks
  the remote object, yielding the proxy or null.
\<close>

definition Initialize_portal :: "world \<Rightarrow> streamer \<Rightarrow> unit outcome \<times> streamer" where
  "Initialize_portal w s =
     (case ice w (Ice_propertyToProxy ''Portal.Proxy'') s of
        (Ice_exception, s1) \<Rightarrow> (Throws, s1)
      | (Ice_null, s1) \<Rightarrow> (Returns (), s1\<lparr>portal := False\<rparr>)
      | (Ice_ok, s1) \<Rightarrow>
          (case ice w Ice_checkedCast s1 of
             (Ice_exception, s2) \<Rightarrow> (Throws, s2)
           | (Ice_null, s2) \<Rightarrow> (Returns (), s2\<lparr>portal := False\<rparr>)
           | (Ice_ok, s2) \<Rightarrow> (Returns (), s2\<lparr>portal := True\<rparr>)))"

definition htons :: "int \<Rightarrow> int" where
  "htons port = port mod 65536"

text \<open>Lines 148 to 179; the result is false where the source returns false.\<close>

definition Initialize_listen :: "world \<Rightarrow> streamer \<Rightarrow> bool \<times> streamer" where
  "Initialize_listen w s =
     (let s1 = LOG_INFO ''Setting up listen socket...'' [] s
      in case sys w Sys_socket_nonblock s1 of
           (fd, s2) \<Rightarrow>
             (let s3 = s2\<lparr>listenSocketFd := fd\<rparr>
              in if listenSocketFd s3 < 0 then
                   (False, LOG_ERROR ''Failed to initialize listen socket'' [] s3)
                 else
                   (case sys w (Sys_bind (listenSocketFd s3) (htons (listenPort s3))) s3 of
                      (b, s4) \<Rightarrow>
                        if b < 0 then (False, LOG_ERROR ''Failed to bind listen socket'' [] s4)
                        else
                          (case sys w (Sys_listen (listenSocketFd s4) LISTEN_BACKLOG) s4 of
                             (l, s5) \<Rightarrow>
                               if l < 0 then
                                 (False, LOG_ERROR ''Failed to open listen socket'' [] s5)
                               else
                                 (True,
                                  snd (sys w (Sys_setsockopt_reuseaddr (listenSocketFd s5)) s5))))))"

text \<open>
  Lines 184 to 209. \<^verbatim>\<open>fork\<close> answers 0 in the child, where \<^verbatim>\<open>execlp\<close> is called:
  it does not return when it succeeds (a non-negative answer of the world stands for
  that) and returns \<open>-1\<close> when it fails, after which the child goes on with line 211.
  Any other answer of \<^verbatim>\<open>fork\<close>, the pid of the child or \<open>-1\<close>, is stored and not
  looked at. The result is false where the process image has been replaced.
\<close>

definition ffmpegHost :: string where
  "ffmpegHost = ''127.0.0.1''"

definition Initialize_fork :: "world \<Rightarrow> streamer \<Rightarrow> bool \<times> streamer" where
  "Initialize_fork w s =
     (let endpoint = transport s @ ''://'' @ ffmpegHost @ '':'' @ to_string (ffmpegPort s);
          s1 = LOG_INFO ''Starting and connecting to ffmpeg...'' [] s
      in case sys w Sys_fork s1 of
           (pid, s2) \<Rightarrow>
             (let s3 = s2\<lparr>ffmpegPid := pid\<rparr>
              in if ffmpegPid s3 = 0 then
                   (case sys w (Sys_execlp ''./streamer_ffmpeg.sh''
                                  [''streamer_ffmpeg.sh'', videoFilePath s3, endpoint,
                                   videoSize (streamEntry s3), bitRate (streamEntry s3)]) s3 of
                      (r, s4) \<Rightarrow> (r < 0, s4))
                 else (True, s3)))"

text \<open>
  Lines 211 to 218. The descriptor of the upstream socket is stored unchecked.
  \<^verbatim>\<open>gethostbyname\<close> is given a dotted address, for which it makes no lookup.
\<close>

definition Initialize_socket :: "world \<Rightarrow> streamer \<Rightarrow> streamer" where
  "Initialize_socket w s =
     (case sys w Sys_socket s of
        (fd, s1) \<Rightarrow> snd (sys w (Sys_gethostbyname ffmpegHost) (s1\<lparr>ffmpegSocketFd := fd\<rparr>)))"

text \<open>
  Lines 220 to 234, the connect loop: true where it ends by \<^verbatim>\<open>break\<close>, false where
  it returns false from \<^verbatim>\<open>Initialize\<close>.
\<close>

fun Initialize_connect :: "nat \<Rightarrow> world \<Rightarrow> streamer \<Rightarrow> (bool \<times> streamer) option" where
  "Initialize_connect 0 w s = None"
| "Initialize_connect (Suc k) w s =
     (case poll_early_exit w s of
        (True, s1) \<Rightarrow> Some (False, LOG_INFO ''Exiting early...'' [] s1)
      | (False, s1) \<Rightarrow>
          (case sys w (Sys_connect (ffmpegSocketFd s1) ffmpegHost (htons (ffmpegPort s1))) s1 of
             (error, s2) \<Rightarrow>
               if error \<ge> 0 then Some (True, s2)
               else Initialize_connect k w (snd (sys w (Sys_usleep (500 * 1000)) s2))))"

text \<open>\<^verbatim>\<open>Streamer::Initialize\<close>, lines 136 to 239.\<close>

definition Initialize :: "nat \<Rightarrow> world \<Rightarrow> streamer \<Rightarrow> (bool outcome \<times> streamer) option" where
  "Initialize k w s =
     (case Initialize_portal w s of
        (Throws, s1) \<Rightarrow> Some (Throws, s1)
      | (Execs, s1) \<Rightarrow> Some (Execs, s1)
      | (Returns _, s1) \<Rightarrow>
          if \<not> portal s1 then Some (Returns False, LOG_ERROR ''failed to find portal'' [] s1)
          else
            (case Initialize_listen w s1 of
               (False, s2) \<Rightarrow> Some (Returns False, s2)
             | (True, s2) \<Rightarrow>
                 (case Initialize_fork w s2 of
                    (False, s3) \<Rightarrow> Some (Execs, s3)
                  | (True, s3) \<Rightarrow>
                      (case Initialize_connect k w (Initialize_socket w s3) of
                         None \<Rightarrow> None
                       | Some (False, s4) \<Rightarrow> Some (Returns False, s4)
                       | Some (True, s4) \<Rightarrow>
                           (case ice w (Ice_NewStream (streamEntry s4)) s4 of
                              (Ice_exception, s5) \<Rightarrow> Some (Throws, s5)
                            | (_, s5) \<Rightarrow> Some (Returns True, s5))))))"

section \<open>run\<close>

definition PrintUsage :: "streamer \<Rightarrow> streamer" where
  "PrintUsage s =
     (let s = LOG_INFO ''Usage: ./streamer $video_file $stream_name [options]'' [] s;
          s = LOG_INFO ''Options:'' [] s;
          s = LOG_INFO '''--transport $trans' sets endpoint transport protocol, tcp by default'' [] s;
          s = LOG_INFO '''--host $host' sets endpoint host, localhost by default'' [] s;
          s = LOG_INFO '''--port $port' specifies listen port, 9600 by default'' [] s;
          s = LOG_INFO '''--ffmpeg_port $port' sets port for ffmpeg instance, 9601 by default'' [] s;
          s = LOG_INFO '''--video_size $size' specifies video size, 480x270 by default'' [] s;
          s = LOG_INFO '''--bit_rate $rate' sets video bit rate, 400k by default'' [] s;
          s = LOG_INFO '''--keywords $key1,$key2...,$keyn' adds search keywords to stream'' [] s
      in s)"

text \<open>
  \<^verbatim>\<open>atoi\<close>: leading white space, an optional sign, then decimal digits up to the first
  other character. The C standard leaves a value out of the range of \<^verbatim>\<open>int\<close>
  undefined; glibc computes the value as \<^verbatim>\<open>strtol\<close> does, which saturates at the
  bounds of \<^verbatim>\<open>long\<close> (64 bits), and converts it to \<^verbatim>\<open>int\<close> by keeping the low
  32 bits, two's complement. That is what is modelled.
\<close>

definition isspace :: "char \<Rightarrow> bool" where
  "isspace c = (of_char c \<in> {32, 9, 10, 11, 12, 13 :: nat})"

definition isdigit :: "char \<Rightarrow> bool" where
  "isdigit c = (48 \<le> (of_char c :: nat) \<and> (of_char c :: nat) \<le> 57)"

fun atoi_digits :: "int \<Rightarrow> string \<Rightarrow> int" where
  "atoi_digits acc [] = acc"
| "atoi_digits acc (c # cs) =
     (if isdigit c then atoi_digits (acc * 10 + (of_char c - 48)) cs else acc)"

definition atoi :: "string \<Rightarrow> int" where
  "atoi str =
     (let n = (case dropWhile isspace str of
                 [] \<Rightarrow> 0
               | c # cs \<Rightarrow>
                   if c = CHR ''-'' then - atoi_digits 0 cs
                   else if c = CHR ''+'' then atoi_digits 0 cs
                   else atoi_digits 0 (c # cs));
          long = max (- (2 ^ 63)) (min (2 ^ 63 - 1) n)
      in sint (word_of_int long :: 32 word))"

text \<open>
  Lines 108 to 111: \<^verbatim>\<open>getline\<close> with the delimiter \<^verbatim>\<open>,\<close> in a loop. \<open>t\<close> is the
  token read so far. A token ends at a comma or at the end of the input; at the end of
  the input an empty token is a failed \<^verbatim>\<open>getline\<close> and ends the loop.
\<close>

fun getline_loop :: "string \<Rightarrow> string \<Rightarrow> string list" where
  "getline_loop t [] = (if t = [] then [] else [t])"
| "getline_loop t (c # cs) =
     (if c = CHR '','' then t # getline_loop [] cs else getline_loop (t @ [c]) cs)"

text \<open>The locals of \<^verbatim>\<open>run\<close> that the option loop assigns.\<close>

record run_locals =
  l_videoSize :: string
  l_bitRate :: string
  l_keywords :: string

text \<open>
  Lines 65 to 94, the option loop, at index \<open>i\<close>; \<^verbatim>\<open>argc\<close> is the length of
  \<^verbatim>\<open>argv\<close>. \<open>Inl\<close> is the \<^verbatim>\<open>return 1\<close> of line 73.
\<close>

function parse_options ::
  "string list \<Rightarrow> nat \<Rightarrow> streamer \<times> run_locals \<Rightarrow> streamer + streamer \<times> run_locals" where
  "parse_options argv i (s, l) =
     (if i < length argv then
        (let option = argv ! i
         in if i + 1 \<ge> length argv then
              Inl (LOG_INFO ''Missing argument after option %s'' [option] s)
            else
              (let arg = argv ! (i + 1);
                   sl =
                     (if option = ''--transport'' then (s\<lparr>transport := arg\<rparr>, l)
                      else if option = ''--host'' then (s\<lparr>host := arg\<rparr>, l)
                      else if option = ''--port'' then (s\<lparr>listenPort := atoi arg\<rparr>, l)
                      else if option = ''--ffmpeg_port'' then (s\<lparr>ffmpegPort := atoi arg\<rparr>, l)
                      else if option = ''--video_size'' then (s, l\<lparr>l_videoSize := arg\<rparr>)
                      else if option = ''--bit_rate'' then (s, l\<lparr>l_bitRate := arg\<rparr>)
                      else if option = ''--keywords'' then (s, l\<lparr>l_keywords := arg\<rparr>)
                      else (LOG_INFO ''Unrecognized option '%s', skipping'' [option] s, l))
               in parse_options argv (i + 1) sl))
      else Inr (s, l))"
  by pat_completeness auto
termination
  by (relation "measure (\<lambda>(argv, i, sl). length argv - i)") auto

declare parse_options.simps [simp del]

text \<open>Lines 131 to 133: cleanup, then the exit code.\<close>

definition run_close :: "world \<Rightarrow> int \<Rightarrow> streamer \<Rightarrow> int outcome \<times> streamer" where
  "run_close w exitCode s =
     (case Close w s of
        (Returns _, s1) \<Rightarrow> (Returns exitCode, s1)
      | (Throws, s1) \<Rightarrow> (Throws, s1)
      | (Execs, s1) \<Rightarrow> (Execs, s1))"

text \<open>
  \<^verbatim>\<open>Streamer::run\<close>, lines 44 to 134, called by \<^verbatim>\<open>Ice::Application::main\<close> with
  the command line; \<^verbatim>\<open>argc\<close> is the length of \<^verbatim>\<open>argv\<close>. The assignment of the
  signal policy at line 52 touches nothing that the rest of the source reads. An
  exception or a replaced process image leaves \<^verbatim>\<open>run\<close> without the cleanup.
\<close>

definition run :: "nat \<Rightarrow> world \<Rightarrow> string list \<Rightarrow> streamer \<Rightarrow> (int outcome \<times> streamer) option" where
  "run k w argv s =
     (if length argv < 3 then Some (Returns 1, PrintUsage s)
      else
        (let s1 = s\<lparr>videoFilePath := argv ! 1, transport := ''tcp'', host := ''localhost'',
                    listenPort := 9600, ffmpegPort := 9601\<rparr>;
             streamName = argv ! 2;
             l = \<lparr>l_videoSize = ''480x270'', l_bitRate = ''400k'', l_keywords = []\<rparr>
         in case parse_options argv 3 (s1, l) of
              Inl s2 \<Rightarrow> Some (Returns 1, s2)
            | Inr (s2, l2) \<Rightarrow>
                (let endpoint =
                       transport s2 @ ''://'' @ host s2 @ '':'' @ to_string (listenPort s2);
                     s3 = s2\<lparr>streamEntry :=
                            \<lparr>streamName = streamName, endpoint = endpoint,
                             videoSize = l_videoSize l2, bitRate = l_bitRate l2,
                             keyword = keyword (streamEntry s2) @ getline_loop [] (l_keywords l2)\<rparr>\<rparr>
                 in case Initialize k w s3 of
                      None \<Rightarrow> None
                    | Some (Throws, s4) \<Rightarrow> Some (Throws, s4)
                    | Some (Execs, s4) \<Rightarrow> Some (Execs, s4)
                    | Some (Returns True, s4) \<Rightarrow>
                        (case Run k w s4 of
                           None \<Rightarrow> None
                         | Some s5 \<Rightarrow> Some (run_close w 0 s5))
                    | Some (Returns False, s4) \<Rightarrow>
                        Some (run_close w 1 (LOG_ERROR ''Streamer initialization failed'' [] s4)))))"

text \<open>
  The object before \<^verbatim>\<open>run\<close>: the constructor initialises no member, so the strings
  and the list are empty and the proxy is null; the integers hold whatever
  \<^verbatim>\<open>Streamer.h\<close> gives them, which is left open here.
\<close>

definition Streamer :: "int \<Rightarrow> int \<Rightarrow> int \<Rightarrow> int \<Rightarrow> int \<Rightarrow> streamer" where
  "Streamer lport fport lfd ffd pid =
     \<lparr>videoFilePath = [], transport = [], host = [], listenPort = lport, ffmpegPort = fport,
      streamEntry = \<lparr>streamName = [], endpoint = [], videoSize = [], bitRate = [], keyword = []\<rparr>,
      portal = False, listenSocketFd = lfd, ffmpegSocketFd = ffd, ffmpegPid = pid,
      clientList = [], trace = []\<rparr>"

section \<open>What a trace shows\<close>

text \<open>
  The calls made to the operating system and to Ice, in order, without their results and
  without the polls, the reads and the log lines.
\<close>

datatype call = OS syscall | ICE ice_call

fun call_of :: "event \<Rightarrow> call list" where
  "call_of (Sys c r) = [OS c]"
| "call_of (Ice c a) = [ICE c]"
| "call_of (Sys_read fd offset count r) = []"
| "call_of (Poll_early_exit b) = []"
| "call_of (Log lv fmt args) = []"

definition calls :: "event list \<Rightarrow> call list" where
  "calls tr = concat (map call_of tr)"

text \<open>
  The calls of the cleanup, as lines 243 to 272 lay them out: a socket is shut down and
  closed when its descriptor is positive, the transcoder is signalled and waited for when
  its pid is positive, and before \<^verbatim>\<open>CloseStream\<close> come the closing of every client and
  of the two sockets.
\<close>

definition socket_calls :: "int \<Rightarrow> call list" where
  "socket_calls fd = (if fd > 0 then [OS (Sys_shutdown fd), OS (Sys_close fd)] else [])"

definition ffmpeg_calls :: "int \<Rightarrow> call list" where
  "ffmpeg_calls pid = (if pid > 0 then [OS (Sys_kill_SIGTERM pid), OS Sys_wait] else [])"

definition before_CloseStream :: "streamer \<Rightarrow> call list" where
  "before_CloseStream s =
     map (\<lambda>c. OS (Sys_close c)) (clientList s) @ socket_calls (listenSocketFd s) @
     socket_calls (ffmpegSocketFd s)"

text \<open>The events of closing the clients \<open>cs\<close>, the first of them being event number \<open>t\<close>.\<close>

primrec close_events :: "world \<Rightarrow> nat \<Rightarrow> int list \<Rightarrow> event list" where
  "close_events w t [] = []"
| "close_events w t (c # cs) = Sys (Sys_close c) (sys_result w t (Sys_close c)) # close_events w (Suc t) cs"

text \<open>
  Whether the \<^verbatim>\<open>CloseStream\<close> of a cleanup started in state \<open>s\<close> raises: the answer of
  the world at the position in the trace where that invocation is made.
\<close>

definition CloseStream_raises :: "world \<Rightarrow> streamer \<Rightarrow> bool" where
  "CloseStream_raises w s =
     (ice_result w
        (length (trace s) + length (clientList s) +
         (if listenSocketFd s > 0 then 2 else 0) + (if ffmpegSocketFd s > 0 then 2 else 0))
        (Ice_CloseStream (streamEntry s)) = Ice_exception)"

text \<open>The bytes that the reads of a trace delivered, in order.\<close>

fun delivered_by :: "event \<Rightarrow> byte list" where
  "delivered_by (Sys_read fd offset count (Some bytes)) = bytes"
| "delivered_by (Sys_read fd offset count None) = []"
| "delivered_by (Sys c r) = []"
| "delivered_by (Ice c a) = []"
| "delivered_by (Poll_early_exit b) = []"
| "delivered_by (Log lv fmt args) = []"

definition delivered :: "event list \<Rightarrow> byte list" where
  "delivered tr = concat (map delivered_by tr)"

text \<open>The clock readings of a trace, in order.\<close>

fun clock_of :: "event \<Rightarrow> int list" where
  "clock_of (Sys c r) = (if c = Sys_getMSTime then [r] else [])"
| "clock_of (Sys_read fd offset count r) = []"
| "clock_of (Ice c a) = []"
| "clock_of (Poll_early_exit b) = []"
| "clock_of (Log lv fmt args) = []"

definition clock_readings :: "event list \<Rightarrow> int list" where
  "clock_readings tr = concat (map clock_of tr)"

text \<open>The writes of a trace, in order: the socket, the bytes handed over, the return value.\<close>

fun write_of :: "event \<Rightarrow> (int \<times> byte list \<times> int) list" where
  "write_of (Sys c r) = (case c of Sys_write fd bytes \<Rightarrow> [(fd, bytes, r)] | _ \<Rightarrow> [])"
| "write_of (Sys_read fd offset count r) = []"
| "write_of (Ice c a) = []"
| "write_of (Poll_early_exit b) = []"
| "write_of (Log lv fmt args) = []"

definition writes :: "event list \<Rightarrow> (int \<times> byte list \<times> int) list" where
  "writes tr = concat (map write_of tr)"

text \<open>The sockets of a list of writes whose write did not return a negative value.\<close>

definition written_ok :: "(int \<times> byte list \<times> int) list \<Rightarrow> int list" where
  "written_ok ws = map fst (filter (\<lambda>(fd, bytes, r). \<not> r < 0) ws)"

text \<open>The Ice invocations among a list of calls.\<close>

fun ice_call_of :: "call \<Rightarrow> ice_call list" where
  "ice_call_of (ICE c) = [c]"
| "ice_call_of (OS c) = []"

definition ice_calls :: "event list \<Rightarrow> ice_call list" where
  "ice_calls tr = concat (map ice_call_of (calls tr))"

text \<open>The registrations and deregistrations with the portal among the Ice invocations.\<close>

fun is_stream_call :: "ice_call \<Rightarrow> bool" where
  "is_stream_call (Ice_NewStream e) = True"
| "is_stream_call (Ice_CloseStream e) = True"
| "is_stream_call (Ice_propertyToProxy p) = False"
| "is_stream_call Ice_checkedCast = False"

definition stream_calls :: "event list \<Rightarrow> ice_call list" where
  "stream_calls tr = filter is_stream_call (ice_calls tr)"

text \<open>
  The events on which the read loop leaves \<^verbatim>\<open>Run\<close>: the flag read as set, and a read
  that returned a negative value.
\<close>

fun stops :: "event \<Rightarrow> bool" where
  "stops (Poll_early_exit b) = b"
| "stops (Sys_read fd offset count r) = (r = None)"
| "stops (Sys c r) = False"
| "stops (Ice c a) = False"
| "stops (Log lv fmt args) = False"

text \<open>
  A list of events ends by a stop when its first stopping event is the flag read as set,
  with nothing after it, or a failed read, with only the error line after it.
\<close>

fun ends_by_stop :: "event list \<Rightarrow> bool" where
  "ends_by_stop [] = False"
| "ends_by_stop (e # evs) =
     (if stops e then
        (case e of
           Poll_early_exit b \<Rightarrow> evs = []
         | Sys_read fd offset count r \<Rightarrow> evs = [Log Error ''ffmpeg socket read failed'' []]
         | _ \<Rightarrow> False)
      else ends_by_stop evs)"

text \<open>Line 332: the comparison that ends the send loop.\<close>

definition over_budget :: "int \<Rightarrow> int \<Rightarrow> bool" where
  "over_budget timeBeforeTick now = (now - timeBeforeTick > tickTimer)"

section \<open>The trace of one cycle of the relay loop\<close>

text \<open>
  What a cycle of the relay loop is to leave in the trace, stated on the events alone.
  The accept step: one \<^verbatim>\<open>accept4\<close> on the listen socket, a log line if it gave a
  client \<open>c\<close>, one sleep of 20 ms, and the clock reading \<open>t0\<close> that starts the budget.
\<close>

definition accept_events :: "int \<Rightarrow> int \<Rightarrow> int \<Rightarrow> int \<Rightarrow> event list" where
  "accept_events lfd c u t0 =
     Sys (Sys_accept4 lfd) c #
     (if c > 0 then [Log Info ''Accepted new client, fd %d'' [to_string c]] else []) @
     [Sys (Sys_usleep 20000) u, Sys Sys_getMSTime t0]"

text \<open>
  The reading of one chunk: polls and reads only, none of which stops the loop, that
  deliver the 256 bytes of the chunk between them.
\<close>

definition chunk_read :: "event list \<Rightarrow> byte list \<Rightarrow> bool" where
  "chunk_read rd chunk \<longleftrightarrow>
     list_all (\<lambda>e. \<not> stops e) rd \<and> calls rd = [] \<and> delivered rd = chunk \<and> length chunk = 256"

text \<open>
  A reading that leaves \<^verbatim>\<open>Run\<close>: polls and reads only, ended by a stop before 256 bytes
  were delivered.
\<close>

definition aborted_read :: "event list \<Rightarrow> bool" where
  "aborted_read rd \<longleftrightarrow> ends_by_stop rd \<and> calls rd = [] \<and> length (delivered rd) < 256"

text \<open>
  One broadcast pass over \<open>clients\<close>: the only calls are one write of the chunk to each
  client, in order, and \<open>clients'\<close> are the clients whose write did not return a negative
  value.
\<close>

definition broadcast_pass :: "event list \<Rightarrow> int list \<Rightarrow> byte list \<Rightarrow> int list \<Rightarrow> bool" where
  "broadcast_pass wr clients chunk clients' \<longleftrightarrow>
     calls wr = map (\<lambda>c. OS (Sys_write c chunk)) clients \<and> clients' = written_ok (writes wr) \<and>
     delivered wr = [] \<and> list_all (\<lambda>e. \<not> stops e) wr"

text \<open>
  The send loop, started at clock reading \<open>t0\<close> with the client list \<open>clients\<close>: rounds of
  a chunk read, its broadcast and a clock reading, the loop going on as long as the
  reading is within the budget, ending by \<^verbatim>\<open>break\<close> at the first reading over the
  budget, or ending \<^verbatim>\<open>Run\<close> at an aborted read.
\<close>

inductive send_rounds :: "int \<Rightarrow> int list \<Rightarrow> event list \<Rightarrow> send_exit \<Rightarrow> int list \<Rightarrow> bool" where
  returns: "aborted_read rd \<Longrightarrow> send_rounds t0 clients rd Return clients"
| breaks:
    "chunk_read rd chunk \<Longrightarrow> broadcast_pass wr clients chunk clients' \<Longrightarrow> over_budget t0 now \<Longrightarrow>
     send_rounds t0 clients (rd @ wr @ [Sys Sys_getMSTime now]) Break clients'"
| continues:
    "chunk_read rd chunk \<Longrightarrow> broadcast_pass wr clients chunk clients' \<Longrightarrow>
     \<not> over_budget t0 now \<Longrightarrow> send_rounds t0 clients' evs x clients'' \<Longrightarrow>
     send_rounds t0 clients (rd @ wr @ [Sys Sys_getMSTime now] @ evs) x clients''"

section \<open>The trace of the connect loop\<close>

text \<open>
  The connect loop for the call \<open>connect\<close>: every round starts by reading the flag. Read
  as set, the loop logs and ends with the result false, and nothing follows. Read as not
  set, one connect attempt follows: its success ends the loop with the result true, its
  failure is followed by one sleep of 500 ms and the next round.
\<close>

inductive connect_rounds :: "syscall \<Rightarrow> event list \<Rightarrow> bool \<Rightarrow> bool" where
  cancelled: "connect_rounds connect [Poll_early_exit True, Log Info ''Exiting early...'' []] False"
| connected: "0 \<le> r \<Longrightarrow> connect_rounds connect [Poll_early_exit False, Sys connect r] True"
| retried:
    "r < 0 \<Longrightarrow> connect_rounds connect evs x \<Longrightarrow>
     connect_rounds connect
       (Poll_early_exit False # Sys connect r # Sys (Sys_usleep 500000) u # evs) x"

section \<open>Worlds and states used as examples\<close>

text \<open>The stream entry that \<^verbatim>\<open>run\<close> builds from the defaults and the name \<^verbatim>\<open>name\<close>.\<close>

definition entry1 :: stream_entry where
  "entry1 = \<lparr>streamName = ''name'', endpoint = ''tcp://localhost:9600'',
              videoSize = ''480x270'', bitRate = ''400k'', keyword = []\<rparr>"

text \<open>
  A streamer in the middle of \<^verbatim>\<open>Run\<close>: registered, listening on socket 3, reading
  from socket 4, the transcoder running as pid 7, and two clients, 5 and 6.
\<close>

definition streamer_running :: streamer where
  "streamer_running =
     \<lparr>videoFilePath = ''video.mp4'', transport = ''tcp'', host = ''localhost'',
      listenPort = 9600, ffmpegPort = 9601, streamEntry = entry1, portal = True,
      listenSocketFd = 3, ffmpegSocketFd = 4, ffmpegPid = 7, clientList = [5, 6], trace = []\<rparr>"

text \<open>A world in which every call succeeds but \<^verbatim>\<open>CloseStream\<close>, which raises.\<close>

definition world_CloseStream_raises :: world where
  "world_CloseStream_raises =
     \<lparr>early_exit_at = (\<lambda>t. False), sys_result = (\<lambda>t c. 0), read_result = (\<lambda>t. Some []),
      ice_result = (\<lambda>t c. case c of Ice_CloseStream e \<Rightarrow> Ice_exception | _ \<Rightarrow> Ice_ok)\<rparr>"

text \<open>A world in which every system call fails and every Ice invocation succeeds.\<close>

definition world_syscalls_fail :: world where
  "world_syscalls_fail =
     \<lparr>early_exit_at = (\<lambda>t. False), sys_result = (\<lambda>t c. - 1), read_result = (\<lambda>t. None),
      ice_result = (\<lambda>t c. Ice_ok)\<rparr>"

text \<open>
  A world in which the write to socket 5 is short (100 of the 256 bytes) and every other
  write fails.
\<close>

definition world_short_write :: world where
  "world_short_write =
     \<lparr>early_exit_at = (\<lambda>t. False),
      sys_result = (\<lambda>t c. case c of Sys_write fd bytes \<Rightarrow> (if fd = 5 then 100 else - 1) | _ \<Rightarrow> 0),
      read_result = (\<lambda>t. Some []), ice_result = (\<lambda>t c. Ice_ok)\<rparr>"

definition chunk0 :: "byte list" where
  "chunk0 = replicate 256 0"

text \<open>
  A world whose upstream socket is at the end of the stream (every read returns no
  bytes), in which the flag is never set and every other call answers 0.
\<close>

definition world_end_of_stream :: world where
  "world_end_of_stream =
     \<lparr>early_exit_at = (\<lambda>t. False), sys_result = (\<lambda>t c. 0), read_result = (\<lambda>t. Some []),
      ice_result = (\<lambda>t c. Ice_ok)\<rparr>"

text \<open>
  A world with a client waiting to be accepted as socket 8, an upstream that delivers
  300 bytes at every read, writes that take all 256 bytes, and a clock that advances by
  20 ms at every event.
\<close>

definition world_steady :: world where
  "world_steady =
     \<lparr>early_exit_at = (\<lambda>t. False),
      sys_result = (\<lambda>t c. case c of
                       Sys_accept4 fd \<Rightarrow> 8
                     | Sys_write fd bytes \<Rightarrow> 256
                     | Sys_getMSTime \<Rightarrow> 20 * int t
                     | _ \<Rightarrow> 0),
      read_result = (\<lambda>t. Some (replicate 300 7)), ice_result = (\<lambda>t c. Ice_ok)\<rparr>"

text \<open>
  A world in which every connect attempt fails and the flag is set from the fifth event
  on, that is during the second attempt.
\<close>

definition world_cancel :: world where
  "world_cancel =
     \<lparr>early_exit_at = (\<lambda>t. 4 \<le> t), sys_result = (\<lambda>t c. - 1), read_result = (\<lambda>t. None),
      ice_result = (\<lambda>t c. Ice_ok)\<rparr>"

text \<open>
  A world in which \<^verbatim>\<open>fork\<close> fails and every other call succeeds: the sockets are
  given the descriptors 3 and 4, and the connect to port 9601 is accepted (by a listener
  that is not the child, there being none).
\<close>

definition world_fork_fails :: world where
  "world_fork_fails =
     \<lparr>early_exit_at = (\<lambda>t. False),
      sys_result = (\<lambda>t c. case c of
                       Sys_fork \<Rightarrow> - 1
                     | Sys_socket_nonblock \<Rightarrow> 3
                     | Sys_socket \<Rightarrow> 4
                     | _ \<Rightarrow> 0),
      read_result = (\<lambda>t. None), ice_result = (\<lambda>t c. Ice_ok)\<rparr>"

text \<open>The streamer as \<^verbatim>\<open>run\<close> hands it to \<^verbatim>\<open>Initialize\<close> when only the defaults are used.\<close>

definition streamer_configured :: streamer where
  "streamer_configured =
     \<lparr>videoFilePath = ''video.mp4'', transport = ''tcp'', host = ''localhost'',
      listenPort = 9600, ffmpegPort = 9601, streamEntry = entry1, portal = False,
      listenSocketFd = 0, ffmpegSocketFd = 0, ffmpegPid = 0, clientList = [], trace = []\<rparr>"

text \<open>The command line with the two positional arguments only.\<close>

definition argv_defaults :: "string list" where
  "argv_defaults = [''streamer'', ''video.mp4'', ''name'']"

text \<open>
  A world in which the portal is found and the listen socket cannot be created.
\<close>

definition world_no_socket :: world where
  "world_no_socket =
     \<lparr>early_exit_at = (\<lambda>t. False), sys_result = (\<lambda>t c. - 1), read_result = (\<lambda>t. None),
      ice_result = (\<lambda>t c. Ice_ok)\<rparr>"

text \<open>
  A world in which every call succeeds: the sockets get the descriptors 3 and 4, the
  transcoder the pid 7, no client is waiting, every read delivers 256 bytes and the clock
  advances by 1 ms at every event. The flag is set from the twenty-first event on, which
  is during the second chunk read of \<^verbatim>\<open>Run\<close>.
\<close>

definition world_sigint :: world where
  "world_sigint =
     \<lparr>early_exit_at = (\<lambda>t. 20 \<le> t),
      sys_result = (\<lambda>t c. case c of
                       Sys_fork \<Rightarrow> 7
                     | Sys_socket_nonblock \<Rightarrow> 3
                     | Sys_socket \<Rightarrow> 4
                     | Sys_accept4 fd \<Rightarrow> - 1
                     | Sys_getMSTime \<Rightarrow> int t
                     | _ \<Rightarrow> 0),
      read_result = (\<lambda>t. Some (replicate 256 1)), ice_result = (\<lambda>t c. Ice_ok)\<rparr>"

text \<open>The outcome of a run and the calls it made.\<close>

definition outcome_and_calls ::
  "(int outcome \<times> streamer) option \<Rightarrow> (int outcome \<times> call list) option" where
  "outcome_and_calls r = map_option (\<lambda>(x, s). (x, calls (trace s))) r"

section \<open>The option loop\<close>

lemma parse_options_rejects:
  "i < length argv \<Longrightarrow> \<exists>s'. parse_options argv i sl = Inl s'"
proof (induction "length argv - i" arbitrary: i sl)
  case 0
  then show ?case by simp
next
  case (Suc n)
  obtain s l where sl: "sl = (s, l)" by (cases sl)
  show ?case
  proof (cases "i + 1 \<ge> length argv")
    case True
    with Suc.prems show ?thesis
      by (simp add: sl parse_options.simps [of argv i])
  next
    case False
    then have lt: "i + 1 < length argv" by simp
    from Suc.hyps(2) have n: "n = length argv - (i + 1)" by simp
    from Suc.prems False
    have "\<exists>sl'. parse_options argv i sl = parse_options argv (i + 1) sl'"
      unfolding sl by (subst parse_options.simps) (auto simp: Let_def)
    then obtain sl' where step: "parse_options argv i sl = parse_options argv (i + 1) sl'" ..
    from Suc.hyps(1) [OF n lt, of sl'] step show ?thesis by simp
  qed
qed

text \<open>
  The loop advances by one argument, not by two, so its last round always stands on the
  last argument and finds nothing after it: whenever there is any argument after the
  stream name, \<^verbatim>\<open>run\<close> returns 1 at line 73 and \<^verbatim>\<open>Initialize\<close> is not reached.
\<close>

lemma run_rejects_options:
  "3 < length argv \<Longrightarrow> \<exists>s'. run k w argv s = Some (Returns 1, s')"
proof -
  assume a: "3 < length argv"
  let ?s1 = "s\<lparr>videoFilePath := argv ! 1, transport := ''tcp'', host := ''localhost'',
                    listenPort := 9600, ffmpegPort := 9601\<rparr>"
  let ?l = "\<lparr>l_videoSize = ''480x270'', l_bitRate = ''400k'', l_keywords = []\<rparr>"
  from parse_options_rejects [OF a, of "(?s1, ?l)"]
  obtain s' where "parse_options argv 3 (?s1, ?l) = Inl s'" by blast
  with a show ?thesis by (simp add: run_def Let_def)
qed

text \<open>
  C9 (the code departs from the claim). On the command line
  \<^verbatim>\<open>streamer video.mp4 name --port 9700\<close> the port is taken from the option, and the
  next round of the loop then reads \<^verbatim>\<open>9700\<close> as an option with no argument after it:
  \<^verbatim>\<open>run\<close> logs that and returns 1, with no call to the operating system or to Ice.
\<close>

theorem run_port_option_returns_1:
  "run k w [''streamer'', ''video.mp4'', ''name'', ''--port'', ''9700''] s =
     Some (Returns 1,
       s\<lparr>videoFilePath := ''video.mp4'', transport := ''tcp'', host := ''localhost'',
         listenPort := 9700, ffmpegPort := 9601,
         trace := trace s @ [Log Info ''Missing argument after option %s'' [''9700'']]\<rparr>)"
  apply (simp add: run_def Let_def)
  apply (simp add: parse_options.simps [of _ 3] Let_def)
  apply (simp add: parse_options.simps [of _ 4] Let_def LOG_INFO_def emit_def)
  apply (simp add: atoi_def isspace_def isdigit_def)
  done

section \<open>Cleanup\<close>

lemma calls_append [simp]: "calls (xs @ ys) = calls xs @ calls ys"
  by (simp add: calls_def)

lemma calls_Nil [simp]: "calls [] = []"
  by (simp add: calls_def)

lemma calls_Cons [simp]: "calls (e # tr) = call_of e @ calls tr"
  by (simp add: calls_def)

lemma calls_close_events: "calls (close_events w t cs) = map (\<lambda>c. OS (Sys_close c)) cs"
  by (induction cs arbitrary: t) simp_all

lemma Close_clients_eq:
  "clientList s = cs \<Longrightarrow>
   Close_clients w s = s\<lparr>clientList := [], trace := trace s @ close_events w (length (trace s)) cs\<rparr>"
proof (induction cs arbitrary: s)
  case Nil
  then show ?case by (simp add: Close_clients.simps [of w s])
next
  case (Cons c cs)
  let ?s2 = "s\<lparr>clientList := cs, trace := trace s @ [Sys (Sys_close c) (sys_result w (length (trace s)) (Sys_close c))]\<rparr>"
  have unfold: "Close_clients w s = Close_clients w ?s2"
    using Cons.prems by (simp add: Close_clients.simps [of w s] Let_def sys_def emit_def)
  have "clientList ?s2 = cs" by simp
  from Cons.IH [OF this] show ?case
    unfolding unfold by simp
qed

lemma length_close_events [simp]: "length (close_events w t cs) = length cs"
  by (induction cs arbitrary: t) simp_all

lemma Close_socket_eq:
  "\<exists>evs. Close_socket w fd s = s\<lparr>trace := trace s @ evs\<rparr> \<and> calls evs = socket_calls fd \<and>
     length evs = (if fd > 0 then 2 else 0)"
proof (cases "fd > 0")
  case True
  show ?thesis
    apply (simp add: Close_socket_def sys_def emit_def Let_def socket_calls_def True)
    apply (rule exI, rule conjI [OF refl])
    apply simp
    done
next
  case False
  then show ?thesis
    by (simp add: Close_socket_def socket_calls_def)
qed

lemma Close_ffmpeg_eq:
  "\<exists>evs. Close_ffmpeg w s = s\<lparr>trace := trace s @ evs\<rparr> \<and> calls evs = ffmpeg_calls (ffmpegPid s)"
proof (cases "ffmpegPid s > 0")
  case True
  show ?thesis
    apply (simp add: Close_ffmpeg_def sys_def emit_def Let_def ffmpeg_calls_def LOG_INFO_def True)
    apply (rule exI, rule conjI [OF refl])
    apply simp
    done
next
  case False
  then show ?thesis
    by (auto simp: Close_ffmpeg_def ffmpeg_calls_def intro: exI [of _ "[]"])
qed

lemma Close_sockets:
  "\<exists>evs. Close_socket w (ffmpegSocketFd s) (Close_socket w (listenSocketFd s) (Close_clients w s)) =
           s\<lparr>clientList := [], trace := trace s @ evs\<rparr> \<and>
         calls evs = before_CloseStream s \<and>
         length (trace s @ evs) = length (trace s) + length (clientList s) +
           (if listenSocketFd s > 0 then 2 else 0) + (if ffmpegSocketFd s > 0 then 2 else 0)"
proof -
  let ?s1 = "s\<lparr>clientList := [], trace := trace s @ close_events w (length (trace s)) (clientList s)\<rparr>"
  have 1: "Close_clients w s = ?s1" by (rule Close_clients_eq [OF refl])
  obtain e2 where 2: "Close_socket w (listenSocketFd s) ?s1 = ?s1\<lparr>trace := trace ?s1 @ e2\<rparr>"
    "calls e2 = socket_calls (listenSocketFd s)" "length e2 = (if listenSocketFd s > 0 then 2 else 0)"
    using Close_socket_eq [of w "listenSocketFd s" ?s1] by blast
  let ?s2 = "?s1\<lparr>trace := trace ?s1 @ e2\<rparr>"
  obtain e3 where 3: "Close_socket w (ffmpegSocketFd s) ?s2 = ?s2\<lparr>trace := trace ?s2 @ e3\<rparr>"
    "calls e3 = socket_calls (ffmpegSocketFd s)" "length e3 = (if ffmpegSocketFd s > 0 then 2 else 0)"
    using Close_socket_eq [of w "ffmpegSocketFd s" ?s2] by blast
  show ?thesis
    apply (rule exI [of _ "close_events w (length (trace s)) (clientList s) @ e2 @ e3"])
    apply (simp only: 1 2(1) 3(1))
    apply (simp add: 2(2,3) 3(2,3) before_CloseStream_def calls_close_events)
    done
qed



lemma Close_eq:
  "\<exists>evs. snd (Close w s) = s\<lparr>clientList := [], trace := trace s @ evs\<rparr> \<and>
     calls evs = before_CloseStream s @
       (if portal s then
          ICE (Ice_CloseStream (streamEntry s)) #
            (if CloseStream_raises w s then [] else ffmpeg_calls (ffmpegPid s))
        else ffmpeg_calls (ffmpegPid s)) \<and>
     fst (Close w s) = (if portal s \<and> CloseStream_raises w s then Throws else Returns ())"
proof -
  obtain e1 where e1:
    "Close_socket w (ffmpegSocketFd s) (Close_socket w (listenSocketFd s) (Close_clients w s)) =
       s\<lparr>clientList := [], trace := trace s @ e1\<rparr>"
    "calls e1 = before_CloseStream s"
    "length (trace s @ e1) = length (trace s) + length (clientList s) +
       (if listenSocketFd s > 0 then 2 else 0) + (if ffmpegSocketFd s > 0 then 2 else 0)"
    using Close_sockets [of w s] by blast
  let ?s3 = "s\<lparr>clientList := [], trace := trace s @ e1\<rparr>"
  have fd: "listenSocketFd (Close_clients w s) = listenSocketFd s"
    "ffmpegSocketFd (Close_socket w (listenSocketFd s) (Close_clients w s)) = ffmpegSocketFd s"
    using Close_socket_eq [of w "listenSocketFd s" "Close_clients w s"]
    by (auto simp: Close_clients_eq [OF refl])
  have C: "Close w s =
     (if portal ?s3 then
        (case ice w (Ice_CloseStream (streamEntry ?s3)) ?s3 of
           (Ice_exception, s4) \<Rightarrow> (Throws, s4)
         | (_, s4) \<Rightarrow> (Returns (), Close_ffmpeg w s4))
      else (Returns (), Close_ffmpeg w ?s3))"
    by (simp only: Close_def Let_def fd e1(1))
  show ?thesis
  proof (cases "portal s")
    case False
    obtain e2 where e2: "Close_ffmpeg w ?s3 = ?s3\<lparr>trace := trace ?s3 @ e2\<rparr>"
      "calls e2 = ffmpeg_calls (ffmpegPid ?s3)"
      using Close_ffmpeg_eq [of w ?s3] by blast
    from False have "Close w s = (Returns (), ?s3\<lparr>trace := trace ?s3 @ e2\<rparr>)"
      by (simp add: C e2(1))
    with False e1(2) e2(2) show ?thesis
      by (intro exI [of _ "e1 @ e2"]) simp
  next
    case True
    let ?a = "ice_result w (length (trace s @ e1)) (Ice_CloseStream (streamEntry s))"
    let ?s4 = "?s3\<lparr>trace := trace ?s3 @ [Ice (Ice_CloseStream (streamEntry s)) ?a]\<rparr>"
    have I: "ice w (Ice_CloseStream (streamEntry ?s3)) ?s3 = (?a, ?s4)"
      by (simp add: ice_def emit_def Let_def)
    have R: "CloseStream_raises w s \<longleftrightarrow> ?a = Ice_exception"
      unfolding CloseStream_raises_def e1(3) [symmetric] ..
    show ?thesis
    proof (cases "?a = Ice_exception")
      case exn: True
      with True have "Close w s = (Throws, ?s4)"
        by (simp only: C I) simp
      with True exn R e1(2) show ?thesis
        by (intro exI [of _ "e1 @ [Ice (Ice_CloseStream (streamEntry s)) ?a]"]) simp
    next
      case ok: False
      obtain e2 where e2: "Close_ffmpeg w ?s4 = ?s4\<lparr>trace := trace ?s4 @ e2\<rparr>"
        "calls e2 = ffmpeg_calls (ffmpegPid ?s4)"
        using Close_ffmpeg_eq [of w ?s4] by blast
      from True ok have "Close w s = (Returns (), ?s4\<lparr>trace := trace ?s4 @ e2\<rparr>)"
        by (simp only: C I e2(1) [symmetric]) (simp split: ice_answer.splits)
      with True ok R e1(2) e2(2) show ?thesis
        by (intro exI [of _ "e1 @ Ice (Ice_CloseStream (streamEntry s)) ?a # e2"]) simp
    qed
  qed
qed

text \<open>
  C5 (amended). The calls that \<^verbatim>\<open>Close\<close> makes are fixed by the state it starts from
  and by one answer of the world, whether \<^verbatim>\<open>CloseStream\<close> raises: the clients are
  closed, then the listen socket and the upstream socket are shut down and closed, then
  \<^verbatim>\<open>CloseStream\<close> is called if the proxy is non-null, then the transcoder is signalled
  and reaped. No return value of \<^verbatim>\<open>close\<close>, \<^verbatim>\<open>shutdown\<close>, \<^verbatim>\<open>kill\<close> or
  \<^verbatim>\<open>wait\<close> changes what comes after it. When \<^verbatim>\<open>CloseStream\<close> raises, the exception
  leaves \<^verbatim>\<open>Close\<close> and the transcoder is neither signalled nor reaped.
\<close>

theorem Close_calls_determined:
  "fst (Close w s) = (if portal s \<and> CloseStream_raises w s then Throws else Returns ()) \<and>
   calls (trace (snd (Close w s))) =
     calls (trace s) @ before_CloseStream s @
     (if portal s then
        ICE (Ice_CloseStream (streamEntry s)) #
          (if CloseStream_raises w s then [] else ffmpeg_calls (ffmpegPid s))
      else ffmpeg_calls (ffmpegPid s))"
proof -
  from Close_eq [of w s] obtain evs where
    "snd (Close w s) = s\<lparr>clientList := [], trace := trace s @ evs\<rparr>"
    "calls evs = before_CloseStream s @
       (if portal s then
          ICE (Ice_CloseStream (streamEntry s)) #
            (if CloseStream_raises w s then [] else ffmpeg_calls (ffmpegPid s))
        else ffmpeg_calls (ffmpegPid s))"
    "fst (Close w s) = (if portal s \<and> CloseStream_raises w s then Throws else Returns ())"
    by blast
  then show ?thesis by simp
qed

text \<open>With every system call failing, all the steps of the cleanup are still made.\<close>

theorem Close_calls_determined_witness:
  "fst (Close world_syscalls_fail streamer_running) = Returns () \<and>
   calls (trace (snd (Close world_syscalls_fail streamer_running))) =
     [OS (Sys_close 5), OS (Sys_close 6), OS (Sys_shutdown 3), OS (Sys_close 3),
      OS (Sys_shutdown 4), OS (Sys_close 4), ICE (Ice_CloseStream entry1),
      OS (Sys_kill_SIGTERM 7), OS Sys_wait]"
  using Close_calls_determined [of world_syscalls_fail streamer_running]
  by (simp add: streamer_running_def world_syscalls_fail_def CloseStream_raises_def
        before_CloseStream_def socket_calls_def ffmpeg_calls_def)

text \<open>
  C5 as stated fails: with two clients, both sockets open, the proxy set and the
  transcoder running as pid 7, a \<^verbatim>\<open>CloseStream\<close> that raises ends \<^verbatim>\<open>Close\<close> by the
  exception, and neither \<^verbatim>\<open>kill\<close> nor \<^verbatim>\<open>wait\<close> is called.
\<close>

theorem Close_CloseStream_raises_counterexample:
  "fst (Close world_CloseStream_raises streamer_running) = Throws \<and>
   calls (trace (snd (Close world_CloseStream_raises streamer_running))) =
     [OS (Sys_close 5), OS (Sys_close 6), OS (Sys_shutdown 3), OS (Sys_close 3),
      OS (Sys_shutdown 4), OS (Sys_close 4), ICE (Ice_CloseStream entry1)] \<and>
   ffmpegPid streamer_running > 0"
proof -
  from Close_eq [of world_CloseStream_raises streamer_running] obtain evs where
    "snd (Close world_CloseStream_raises streamer_running) =
       streamer_running\<lparr>clientList := [], trace := trace streamer_running @ evs\<rparr>"
    "calls evs = before_CloseStream streamer_running @
       (if portal streamer_running then
          ICE (Ice_CloseStream (streamEntry streamer_running)) #
            (if CloseStream_raises world_CloseStream_raises streamer_running then []
             else ffmpeg_calls (ffmpegPid streamer_running))
        else ffmpeg_calls (ffmpegPid streamer_running))"
    "fst (Close world_CloseStream_raises streamer_running) =
       (if portal streamer_running \<and> CloseStream_raises world_CloseStream_raises streamer_running
        then Throws else Returns ())"
    by blast
  then show ?thesis
    by (simp add: streamer_running_def world_CloseStream_raises_def CloseStream_raises_def
        before_CloseStream_def socket_calls_def ffmpeg_calls_def)
qed

text \<open>
  C8 (amended). A second cleanup closes no client socket, the list being empty after the
  first one. The descriptors, the proxy and the pid are not reset by \<^verbatim>\<open>Close\<close>, so
  the second cleanup shuts down and closes the listen socket and the upstream socket
  again where their descriptors are positive, calls \<^verbatim>\<open>CloseStream\<close> again where the
  proxy is non-null, and signals and reaps the transcoder again where its pid is positive
  (unless that \<^verbatim>\<open>CloseStream\<close> raises).
\<close>

theorem Close_twice:
  "calls (trace (snd (Close w' (snd (Close w s))))) =
     calls (trace (snd (Close w s))) @
     socket_calls (listenSocketFd s) @ socket_calls (ffmpegSocketFd s) @
     (if portal s then
        ICE (Ice_CloseStream (streamEntry s)) #
          (if CloseStream_raises w' (snd (Close w s)) then [] else ffmpeg_calls (ffmpegPid s))
      else ffmpeg_calls (ffmpegPid s))"
proof -
  from Close_eq [of w s] obtain evs where
    1: "snd (Close w s) = s\<lparr>clientList := [], trace := trace s @ evs\<rparr>" by blast
  let ?s1 = "snd (Close w s)"
  from Close_eq [of w' ?s1] obtain evs' where
    2: "snd (Close w' ?s1) = ?s1\<lparr>clientList := [], trace := trace ?s1 @ evs'\<rparr>"
    "calls evs' = before_CloseStream ?s1 @
       (if portal ?s1 then
          ICE (Ice_CloseStream (streamEntry ?s1)) #
            (if CloseStream_raises w' ?s1 then [] else ffmpeg_calls (ffmpegPid ?s1))
        else ffmpeg_calls (ffmpegPid ?s1))"
    by blast
  have f: "portal ?s1 = portal s" "streamEntry ?s1 = streamEntry s" "ffmpegPid ?s1 = ffmpegPid s"
    "before_CloseStream ?s1 = socket_calls (listenSocketFd s) @ socket_calls (ffmpegSocketFd s)"
    by (simp_all add: 1 before_CloseStream_def)
  show ?thesis
    by (simp only: 2(1)) (simp add: 2(2) f)
qed

text \<open>The second cleanup of a running streamer, in a world where no call succeeds.\<close>

theorem Close_twice_witness:
  "calls (trace (snd (Close world_syscalls_fail (snd (Close world_syscalls_fail streamer_running))))) =
     calls (trace (snd (Close world_syscalls_fail streamer_running))) @
     [OS (Sys_shutdown 3), OS (Sys_close 3), OS (Sys_shutdown 4), OS (Sys_close 4),
      ICE (Ice_CloseStream entry1), OS (Sys_kill_SIGTERM 7), OS Sys_wait]"
  using Close_twice [of world_syscalls_fail world_syscalls_fail streamer_running]
  by (simp add: streamer_running_def world_syscalls_fail_def CloseStream_raises_def
        socket_calls_def ffmpeg_calls_def)

text \<open>
  C8 as stated fails: two cleanups of a running streamer shut down and close the listen
  socket 3 and the upstream socket 4 twice, call \<^verbatim>\<open>CloseStream\<close> twice, and signal
  and reap the transcoder twice.
\<close>

theorem Close_twice_counterexample:
  "calls (trace (snd (Close world_syscalls_fail (snd (Close world_syscalls_fail streamer_running))))) =
     [OS (Sys_close 5), OS (Sys_close 6), OS (Sys_shutdown 3), OS (Sys_close 3),
      OS (Sys_shutdown 4), OS (Sys_close 4), ICE (Ice_CloseStream entry1),
      OS (Sys_kill_SIGTERM 7), OS Sys_wait,
      OS (Sys_shutdown 3), OS (Sys_close 3), OS (Sys_shutdown 4), OS (Sys_close 4),
      ICE (Ice_CloseStream entry1), OS (Sys_kill_SIGTERM 7), OS Sys_wait]"
proof -
  let ?w = world_syscalls_fail
  let ?s = streamer_running
  from Close_eq [of ?w ?s] obtain evs where
    1: "snd (Close ?w ?s) = ?s\<lparr>clientList := [], trace := trace ?s @ evs\<rparr>"
    "calls evs = before_CloseStream ?s @
       (if portal ?s then
          ICE (Ice_CloseStream (streamEntry ?s)) #
            (if CloseStream_raises ?w ?s then [] else ffmpeg_calls (ffmpegPid ?s))
        else ffmpeg_calls (ffmpegPid ?s))"
    by blast
  let ?s1 = "snd (Close ?w ?s)"
  from Close_eq [of ?w ?s1] obtain evs' where
    2: "snd (Close ?w ?s1) = ?s1\<lparr>clientList := [], trace := trace ?s1 @ evs'\<rparr>"
    "calls evs' = before_CloseStream ?s1 @
       (if portal ?s1 then
          ICE (Ice_CloseStream (streamEntry ?s1)) #
            (if CloseStream_raises ?w ?s1 then [] else ffmpeg_calls (ffmpegPid ?s1))
        else ffmpeg_calls (ffmpegPid ?s1))"
    by blast
  have a: "calls evs =
     [OS (Sys_close 5), OS (Sys_close 6), OS (Sys_shutdown 3), OS (Sys_close 3),
      OS (Sys_shutdown 4), OS (Sys_close 4), ICE (Ice_CloseStream entry1),
      OS (Sys_kill_SIGTERM 7), OS Sys_wait]"
    unfolding 1(2)
    by (simp add: streamer_running_def world_syscalls_fail_def CloseStream_raises_def
        before_CloseStream_def socket_calls_def ffmpeg_calls_def)
  have b: "calls evs' =
     [OS (Sys_shutdown 3), OS (Sys_close 3), OS (Sys_shutdown 4), OS (Sys_close 4),
      ICE (Ice_CloseStream entry1), OS (Sys_kill_SIGTERM 7), OS Sys_wait]"
    unfolding 2(2) 1(1)
    by (simp add: streamer_running_def world_syscalls_fail_def CloseStream_raises_def
        before_CloseStream_def socket_calls_def ffmpeg_calls_def)
  have "calls (trace (snd (Close ?w ?s1))) = calls (trace ?s) @ calls evs @ calls evs'"
    by (simp only: 2(1)) (simp add: 1(1))
  then show ?thesis
    by (simp add: a b) (simp add: streamer_running_def)
qed

section \<open>The loops of Run\<close>

lemma delivered_simps [simp]:
  "delivered [] = []" "delivered (e # tr) = delivered_by e @ delivered tr"
  "delivered (xs @ ys) = delivered xs @ delivered ys"
  by (simp_all add: delivered_def)

lemma clock_readings_simps [simp]:
  "clock_readings [] = []" "clock_readings (e # tr) = clock_of e @ clock_readings tr"
  "clock_readings (xs @ ys) = clock_readings xs @ clock_readings ys"
  by (simp_all add: clock_readings_def)

lemma writes_simps [simp]:
  "writes [] = []" "writes (e # tr) = write_of e @ writes tr"
  "writes (xs @ ys) = writes xs @ writes ys"
  by (simp_all add: writes_def)

lemma remove_if_write_eq:
  "\<exists>evs. remove_if_write w buffer cs s = (written_ok (writes evs), s\<lparr>trace := trace s @ evs\<rparr>) \<and>
         map (\<lambda>(fd, bytes, r). (fd, bytes)) (writes evs) = map (\<lambda>c. (c, buffer)) cs \<and>
         calls evs = map (\<lambda>c. OS (Sys_write c buffer)) cs \<and>
         clock_readings evs = [] \<and> delivered evs = [] \<and> list_all (\<lambda>e. \<not> stops e) evs"
proof (induction cs arbitrary: s)
  case Nil
  show ?case by (rule exI [of _ "[]"]) (simp add: written_ok_def)
next
  case (Cons c cs)
  let ?r = "sys_result w (length (trace s)) (Sys_write c buffer)"
  let ?e = "Sys (Sys_write c buffer) ?r"
  let ?s1 = "s\<lparr>trace := trace s @ [?e]\<rparr>"
  have S: "sys w (Sys_write c buffer) s = (?r, ?s1)"
    by (simp add: sys_def emit_def Let_def)
  show ?case
  proof (cases "?r < 0")
    case True
    let ?l = "Log Info ''Removing client fd %d from client list'' [to_string c]"
    let ?s2 = "?s1\<lparr>trace := trace ?s1 @ [?l]\<rparr>"
    have L: "LOG_INFO ''Removing client fd %d from client list'' [to_string c] ?s1 = ?s2"
      by (simp add: LOG_INFO_def emit_def)
    from Cons [of ?s2] obtain evs where evs:
      "remove_if_write w buffer cs ?s2 = (written_ok (writes evs), ?s2\<lparr>trace := trace ?s2 @ evs\<rparr>)"
      "map (\<lambda>(fd, bytes, r). (fd, bytes)) (writes evs) = map (\<lambda>c. (c, buffer)) cs"
      "calls evs = map (\<lambda>c. OS (Sys_write c buffer)) cs"
      "clock_readings evs = []" "delivered evs = []" "list_all (\<lambda>e. \<not> stops e) evs"
      by blast
    have "remove_if_write w buffer (c # cs) s = remove_if_write w buffer cs ?s2"
      using True by (simp add: S LOG_INFO_def emit_def)
    with evs True show ?thesis
      by (intro exI [of _ "?e # ?l # evs"]) (simp add: written_ok_def)
  next
    case False
    from Cons [of ?s1] obtain evs where evs:
      "remove_if_write w buffer cs ?s1 = (written_ok (writes evs), ?s1\<lparr>trace := trace ?s1 @ evs\<rparr>)"
      "map (\<lambda>(fd, bytes, r). (fd, bytes)) (writes evs) = map (\<lambda>c. (c, buffer)) cs"
      "calls evs = map (\<lambda>c. OS (Sys_write c buffer)) cs"
      "clock_readings evs = []" "delivered evs = []" "list_all (\<lambda>e. \<not> stops e) evs"
      by blast
    have "remove_if_write w buffer (c # cs) s =
            (c # written_ok (writes evs), ?s1\<lparr>trace := trace ?s1 @ evs\<rparr>)"
      using False evs(1) by (simp add: S)
    with evs False show ?thesis
      by (intro exI [of _ "?e # evs"]) (simp add: written_ok_def)
  qed
qed


lemma Run_readChunk_eq:
  "Run_readChunk k w remaining buffer s = Some (x, s') \<Longrightarrow> 0 \<le> remaining \<Longrightarrow>
   int (length buffer) = BUFFER_SIZE - remaining \<Longrightarrow>
   \<exists>evs. s' = s\<lparr>trace := trace s @ evs\<rparr> \<and> clock_readings evs = [] \<and> writes evs = [] \<and>
         calls evs = [] \<and>
         (case x of
            Chunk b \<Rightarrow> b = buffer @ delivered evs \<and> int (length b) = BUFFER_SIZE \<and>
              list_all (\<lambda>e. \<not> stops e) evs
          | _ \<Rightarrow> int (length (delivered evs)) < remaining \<and> ends_by_stop evs)"
proof (induction k arbitrary: remaining buffer s)
  case 0
  then show ?case by simp
next
  case (Suc k)
  show ?case
  proof (cases "remaining > 0")
    case False
    with Suc.prems have "x = Chunk buffer" "s' = s" "remaining = 0" by auto
    with Suc.prems(3) show ?thesis
      by (intro exI [of _ "[]"]) simp
  next
    case pos: True
    let ?b = "early_exit_at w (length (trace s))"
    let ?s1 = "s\<lparr>trace := trace s @ [Poll_early_exit ?b]\<rparr>"
    have P: "poll_early_exit w s = (?b, ?s1)"
      by (simp add: poll_early_exit_def emit_def Let_def)
    show ?thesis
    proof (cases ?b)
      case True
      with Suc.prems(1) pos P have "x = Return_early_exit" "s' = ?s1" by auto
      with pos True show ?thesis
        by (intro exI [of _ "[Poll_early_exit ?b]"]) simp
    next
      case noexit: False
      let ?off = "BUFFER_SIZE - remaining"
      define r where "r = map_option (take (nat remaining)) (read_result w (length (trace ?s1)))"
      let ?e = "Sys_read (ffmpegSocketFd ?s1) ?off remaining r"
      let ?s2 = "?s1\<lparr>trace := trace ?s1 @ [?e]\<rparr>"
      have R: "sys_read w (ffmpegSocketFd ?s1) ?off remaining ?s1 = (r, ?s2)"
        by (simp add: sys_read_def emit_def Let_def r_def)
      show ?thesis
      proof (cases r)
        case None
        let ?l = "Log Error ''ffmpeg socket read failed'' []"
        from Suc.prems(1) pos P noexit R None
        have "x = Return_read_failed" "s' = ?s2\<lparr>trace := trace ?s2 @ [?l]\<rparr>"
          by (auto simp: Let_def LOG_ERROR_def emit_def)
        with pos None noexit show ?thesis
          by (intro exI [of _ "[Poll_early_exit ?b, ?e, ?l]"]) simp
      next
        case (Some bytes)
        then have len: "length bytes \<le> nat remaining" by (auto simp: r_def)
        let ?rem = "remaining - int (length bytes)"
        let ?buf = "take (nat ?off) buffer @ bytes"
        from Suc.prems(3) pos have tk: "take (nat ?off) buffer = buffer" by simp
        have rec: "Run_readChunk k w ?rem ?buf ?s2 = Some (x, s')"
          using Suc.prems(1) pos P noexit R Some by (simp add: Let_def)
        have a: "0 \<le> ?rem" using len pos by simp
        have b: "int (length ?buf) = BUFFER_SIZE - ?rem"
          using Suc.prems(3) tk by simp
        from Suc.IH [OF rec a b] obtain evs where evs:
          "s' = ?s2\<lparr>trace := trace ?s2 @ evs\<rparr>" "clock_readings evs = []" "writes evs = []"
          "calls evs = []"
          "case x of
             Chunk b \<Rightarrow> b = ?buf @ delivered evs \<and> int (length b) = BUFFER_SIZE \<and>
               list_all (\<lambda>e. \<not> stops e) evs
           | _ \<Rightarrow> int (length (delivered evs)) < ?rem \<and> ends_by_stop evs"
          by blast
        show ?thesis
          using evs Some tk noexit
          by (intro exI [of _ "Poll_early_exit ?b # ?e # evs"])
             (simp split: read_exit.splits)
      qed
    qed
  qed
qed


lemma ice_calls_simps [simp]:
  "ice_calls [] = []" "ice_calls (xs @ ys) = ice_calls xs @ ice_calls ys"
  "ice_calls (e # tr) = concat (map ice_call_of (call_of e)) @ ice_calls tr"
  by (simp_all add: ice_calls_def)

lemma ice_calls_no_ICE: "calls evs = map OS cs \<Longrightarrow> ice_calls evs = []"
  by (induction cs arbitrary: evs) (auto simp: ice_calls_def)

lemma ends_by_stop_append:
  "list_all (\<lambda>e. \<not> stops e) pre \<Longrightarrow> ends_by_stop (pre @ evs) = ends_by_stop evs"
  by (induction pre) simp_all

lemma Run_broadcastAndPrune_eq:
  "\<exists>evs. Run_broadcastAndPrune w buffer s =
           s\<lparr>clientList := written_ok (writes evs), trace := trace s @ evs\<rparr> \<and>
         map (\<lambda>(fd, bytes, r). (fd, bytes)) (writes evs) = map (\<lambda>c. (c, buffer)) (clientList s) \<and>
         calls evs = map (\<lambda>c. OS (Sys_write c buffer)) (clientList s) \<and>
         clock_readings evs = [] \<and> delivered evs = [] \<and> list_all (\<lambda>e. \<not> stops e) evs"
proof -
  from remove_if_write_eq [of w buffer "clientList s" s] obtain evs where
    "remove_if_write w buffer (clientList s) s = (written_ok (writes evs), s\<lparr>trace := trace s @ evs\<rparr>)"
    "map (\<lambda>(fd, bytes, r). (fd, bytes)) (writes evs) = map (\<lambda>c. (c, buffer)) (clientList s)"
    "calls evs = map (\<lambda>c. OS (Sys_write c buffer)) (clientList s)"
    "clock_readings evs = []" "delivered evs = []" "list_all (\<lambda>e. \<not> stops e) evs"
    by blast
  then show ?thesis
    by (intro exI [of _ evs]) (simp add: Run_broadcastAndPrune_def)
qed

lemma Run_send_eq:
  "Run_send k w t0 s = Some (x, s') \<Longrightarrow>
   \<exists>evs. s' = s\<lparr>clientList := clientList s', trace := trace s @ evs\<rparr> \<and>
         ice_calls evs = [] \<and>
         list_all (\<lambda>now. \<not> over_budget t0 now) (butlast (clock_readings evs)) \<and>
         (case x of
            Break \<Rightarrow>
              clock_readings evs \<noteq> [] \<and> over_budget t0 (last (clock_readings evs)) \<and>
              evs \<noteq> [] \<and> last evs = Sys Sys_getMSTime (last (clock_readings evs)) \<and>
              length (delivered evs) = 256 * length (clock_readings evs) \<and>
              list_all (\<lambda>e. \<not> stops e) evs
          | Return \<Rightarrow>
              ends_by_stop evs \<and>
              list_all (\<lambda>now. \<not> over_budget t0 now) (clock_readings evs) \<and>
              256 * length (clock_readings evs) \<le> length (delivered evs) \<and>
              length (delivered evs) < 256 * length (clock_readings evs) + 256)"
proof (induction k arbitrary: s)
  case 0
  then show ?case by simp
next
  case (Suc k)
  from Suc.prems obtain y s1 where rc: "Run_readChunk k w BUFFER_SIZE [] s = Some (y, s1)"
    by (cases "Run_readChunk k w BUFFER_SIZE [] s") auto
  from Run_readChunk_eq [OF rc] obtain e1 where e1:
    "s1 = s\<lparr>trace := trace s @ e1\<rparr>" "clock_readings e1 = []" "writes e1 = []" "calls e1 = []"
    "case y of Chunk b \<Rightarrow> b = [] @ delivered e1 \<and> int (length b) = BUFFER_SIZE \<and>
               list_all (\<lambda>e. \<not> stops e) e1
             | _ \<Rightarrow> int (length (delivered e1)) < BUFFER_SIZE \<and> ends_by_stop e1"
    by (auto simp: BUFFER_SIZE_def)
  have i1: "ice_calls e1 = []" using e1(4) by (simp add: ice_calls_def)
  show ?case
  proof (cases y)
    case Return_early_exit
    with Suc.prems rc have "x = Return" "s' = s1" by auto
    with e1 i1 Return_early_exit show ?thesis
      by (intro exI [of _ e1]) (simp add: BUFFER_SIZE_def)
  next
    case Return_read_failed
    with Suc.prems rc have "x = Return" "s' = s1" by auto
    with e1 i1 Return_read_failed show ?thesis
      by (intro exI [of _ e1]) (simp add: BUFFER_SIZE_def)
  next
    case (Chunk buffer)
    with e1(5) have d1: "length (delivered e1) = 256" "list_all (\<lambda>e. \<not> stops e) e1"
      by (auto simp: BUFFER_SIZE_def)
    from Run_broadcastAndPrune_eq [of w buffer s1] obtain e2 where e2:
      "Run_broadcastAndPrune w buffer s1 =
         s1\<lparr>clientList := written_ok (writes e2), trace := trace s1 @ e2\<rparr>"
      "calls e2 = map (\<lambda>c. OS (Sys_write c buffer)) (clientList s1)"
      "clock_readings e2 = []" "delivered e2 = []" "list_all (\<lambda>e. \<not> stops e) e2"
      by blast
    have i2: "ice_calls e2 = []"
      using e2(2) ice_calls_no_ICE [of e2 "map (\<lambda>c. Sys_write c buffer) (clientList s1)"]
      by (simp add: comp_def)
    let ?s2 = "s1\<lparr>clientList := written_ok (writes e2), trace := trace s1 @ e2\<rparr>"
    define now where "now = sys_result w (length (trace ?s2)) Sys_getMSTime"
    let ?c = "Sys Sys_getMSTime now"
    let ?s3 = "?s2\<lparr>trace := trace ?s2 @ [?c]\<rparr>"
    have G: "sys w Sys_getMSTime ?s2 = (now, ?s3)"
      by (simp add: sys_def emit_def Let_def now_def)
    have ic: "ice_calls [?c] = []" by (simp add: ice_calls_def)
    have step: "Run_send (Suc k) w t0 s =
      (if now - t0 > tickTimer then Some (Break, ?s3) else Run_send k w t0 ?s3)"
      by (simp add: rc Chunk e2(1) G Let_def)
    show ?thesis
    proof (cases "now - t0 > tickTimer")
      case True
      with Suc.prems step have "x = Break" "s' = ?s3" by auto
      with e1 e2 i1 i2 ic d1 True show ?thesis
        by (intro exI [of _ "e1 @ e2 @ [?c]"]) (simp add: over_budget_def)
    next
      case False
      with Suc.prems step have "Run_send k w t0 ?s3 = Some (x, s')" by simp
      from Suc.IH [OF this] obtain e3 where e3:
        "s' = ?s3\<lparr>clientList := clientList s', trace := trace ?s3 @ e3\<rparr>"
        "ice_calls e3 = []"
        "list_all (\<lambda>now. \<not> over_budget t0 now) (butlast (clock_readings e3))"
        "case x of
            Break \<Rightarrow>
              clock_readings e3 \<noteq> [] \<and> over_budget t0 (last (clock_readings e3)) \<and>
              e3 \<noteq> [] \<and> last e3 = Sys Sys_getMSTime (last (clock_readings e3)) \<and>
              length (delivered e3) = 256 * length (clock_readings e3) \<and>
              list_all (\<lambda>e. \<not> stops e) e3
          | Return \<Rightarrow>
              ends_by_stop e3 \<and>
              list_all (\<lambda>now. \<not> over_budget t0 now) (clock_readings e3) \<and>
              256 * length (clock_readings e3) \<le> length (delivered e3) \<and>
              length (delivered e3) < 256 * length (clock_readings e3) + 256"
        by blast
      have nb: "\<not> over_budget t0 now" using False by (simp add: over_budget_def)
      have bl: "list_all (\<lambda>now. \<not> over_budget t0 now) (butlast (now # clock_readings e3))"
        using e3(3) nb by (cases "clock_readings e3") simp_all
      show ?thesis
        using e1 e2 i1 i2 ic d1 e3 nb bl
        by (intro exI [of _ "e1 @ e2 @ [?c] @ e3"])
           (auto simp: ends_by_stop_append split: send_exit.splits)
    qed
  qed
qed

section \<open>The broadcast pass\<close>

text \<open>
  C1 (amended). The pass writes the chunk once to every socket of the client list, in the
  order of the list. It keeps, in that order, exactly the sockets whose write did not
  return a negative value, a short write included, and removes the others in the same
  pass; the other members of the streamer are left as they were.
\<close>

theorem broadcastAndPrune_keeps_nonnegative:
  "\<exists>evs. Run_broadcastAndPrune w chunk s =
           s\<lparr>clientList := written_ok (writes evs), trace := trace s @ evs\<rparr> \<and>
         map (\<lambda>(fd, bytes, r). (fd, bytes)) (writes evs) = map (\<lambda>c. (c, chunk)) (clientList s)"
  using Run_broadcastAndPrune_eq [of w chunk s] by blast

text \<open>The pass over the two clients of a running streamer.\<close>

theorem broadcastAndPrune_keeps_nonnegative_witness:
  "\<exists>evs. Run_broadcastAndPrune world_short_write chunk0 streamer_running =
           streamer_running\<lparr>clientList := written_ok (writes evs),
             trace := trace streamer_running @ evs\<rparr> \<and>
         map (\<lambda>(fd, bytes, r). (fd, bytes)) (writes evs) =
           map (\<lambda>c. (c, chunk0)) (clientList streamer_running)"
  by (rule broadcastAndPrune_keeps_nonnegative)

text \<open>
  C1 as stated fails: the write to socket 5 takes 100 of the 256 bytes and socket 5 stays
  in the list; the write to socket 6 fails and socket 6 is removed, and the pass makes
  no call but the two writes, so socket 6 is not closed.
\<close>

theorem broadcastAndPrune_short_write_counterexample:
  "clientList (Run_broadcastAndPrune world_short_write chunk0 streamer_running) = [5] \<and>
   trace (Run_broadcastAndPrune world_short_write chunk0 streamer_running) =
     [Sys (Sys_write 5 chunk0) 100, Sys (Sys_write 6 chunk0) (- 1),
      Log Info ''Removing client fd %d from client list'' [''6'']] \<and>
   length chunk0 = 256"
  by (simp add: Run_broadcastAndPrune_def streamer_running_def world_short_write_def
        sys_def emit_def LOG_INFO_def Let_def to_string_def to_string_nat.simps
        digit_char_def chunk0_def)

section \<open>The read loop at the end of the stream\<close>

text \<open>
  When the read loop does hand a buffer to the broadcast, the buffer holds 256 bytes, and
  they are the bytes that the reads delivered, in order: a short buffer is never handed
  over.
\<close>

lemma Run_readChunk_whole_chunk:
  "Run_readChunk k w BUFFER_SIZE [] s = Some (Chunk chunk, s') \<Longrightarrow>
   length chunk = 256 \<and> (\<exists>evs. s' = s\<lparr>trace := trace s @ evs\<rparr> \<and> chunk = delivered evs)"
proof -
  assume a: "Run_readChunk k w BUFFER_SIZE [] s = Some (Chunk chunk, s')"
  have "0 \<le> BUFFER_SIZE" "int (length ([] :: byte list)) = BUFFER_SIZE - BUFFER_SIZE"
    by (simp_all add: BUFFER_SIZE_def)
  from Run_readChunk_eq [OF a this] show ?thesis
    by (auto simp: BUFFER_SIZE_def)
qed

lemma Run_readChunk_end_of_stream:
  "Run_readChunk k world_end_of_stream BUFFER_SIZE [] s = None"
proof (induction k arbitrary: s)
  case 0
  show ?case by simp
next
  case (Suc k)
  show ?case
    by (simp add: poll_early_exit_def sys_read_def emit_def Let_def BUFFER_SIZE_def
          world_end_of_stream_def Suc [unfolded BUFFER_SIZE_def world_end_of_stream_def])
qed

text \<open>
  C2 (the code departs from the claim). Once the upstream socket is at the end of the
  stream, \<^verbatim>\<open>read\<close> returns 0, which line 309 does not take for a failure:
  \<open>remaining\<close> stays at 256 and the loop reads again, for ever unless the flag is set.
  Whatever the number of iterations allowed, neither the read loop nor \<^verbatim>\<open>Run\<close>
  returns.
\<close>

theorem Run_never_returns_at_end_of_stream:
  "Run_readChunk k world_end_of_stream BUFFER_SIZE [] s = None \<and>
   Run k world_end_of_stream s = None"
proof -
  have send: "Run_send k world_end_of_stream t0 s = None" for k t0 s
    by (cases k) (simp_all add: Run_readChunk_end_of_stream)
  have cycle: "Run_cycle k world_end_of_stream s = None" for k s
    by (simp add: Run_cycle_def send split: prod.splits)
  have loop: "Run_loop k world_end_of_stream s = None" for k s
    by (cases k) (simp_all add: cycle)
  show ?thesis
    by (simp add: Run_readChunk_end_of_stream Run_def loop)
qed

lemma Run_accept_eq:
  "\<exists>c u t0. Run_accept w s =
     (t0, s\<lparr>clientList := clientList s @ (if c > 0 then [c] else []),
            trace := trace s @ accept_events (listenSocketFd s) c u t0\<rparr>)"
proof -
  define n where "n = length (trace s)"
  define c where "c = sys_result w n (Sys_accept4 (listenSocketFd s))"
  define m where "m = (if c > 0 then n + 2 else n + 1)"
  define u where "u = sys_result w m (Sys_usleep 20000)"
  define t0 where "t0 = sys_result w (m + 1) Sys_getMSTime"
  have "Run_accept w s =
     (t0, s\<lparr>clientList := clientList s @ (if c > 0 then [c] else []),
            trace := trace s @ accept_events (listenSocketFd s) c u t0\<rparr>)"
    unfolding Run_accept_def sys_def emit_def LOG_INFO_def Let_def sleepTime_def
      accept_events_def t0_def u_def m_def c_def n_def
    by simp
  then show ?thesis by blast
qed

lemma Run_send_rounds:
  "Run_send k w t0 s = Some (x, s') \<Longrightarrow>
   \<exists>evs. trace s' = trace s @ evs \<and> send_rounds t0 (clientList s) evs x (clientList s')"
proof (induction k arbitrary: s)
  case 0
  then show ?case by simp
next
  case (Suc k)
  from Suc.prems obtain y s1 where rc: "Run_readChunk k w BUFFER_SIZE [] s = Some (y, s1)"
    by (cases "Run_readChunk k w BUFFER_SIZE [] s") auto
  from Run_readChunk_eq [OF rc] obtain e1 where e1:
    "s1 = s\<lparr>trace := trace s @ e1\<rparr>" "calls e1 = []"
    "case y of Chunk b \<Rightarrow> b = [] @ delivered e1 \<and> int (length b) = BUFFER_SIZE \<and>
               list_all (\<lambda>e. \<not> stops e) e1
             | _ \<Rightarrow> int (length (delivered e1)) < BUFFER_SIZE \<and> ends_by_stop e1"
    by (auto simp: BUFFER_SIZE_def)
  show ?case
  proof (cases "\<exists>buffer. y = Chunk buffer")
    case False
    with Suc.prems rc have xs: "x = Return" "s' = s1" by (cases y; auto)+
    from False e1(3) have "aborted_read e1"
      by (cases y) (auto simp: aborted_read_def e1(2) BUFFER_SIZE_def)
    then have "send_rounds t0 (clientList s) e1 Return (clientList s)"
      by (rule send_rounds.returns)
    with xs e1(1) show ?thesis
      by (intro exI [of _ e1]) simp
  next
    case True
    then obtain buffer where Chunk: "y = Chunk buffer" ..
    with e1(3) have rd: "chunk_read e1 buffer"
      by (auto simp: chunk_read_def e1(2) BUFFER_SIZE_def)
    from Run_broadcastAndPrune_eq [of w buffer s1] obtain e2 where e2:
      "Run_broadcastAndPrune w buffer s1 =
         s1\<lparr>clientList := written_ok (writes e2), trace := trace s1 @ e2\<rparr>"
      "calls e2 = map (\<lambda>c. OS (Sys_write c buffer)) (clientList s1)"
      "delivered e2 = []" "list_all (\<lambda>e. \<not> stops e) e2"
      by blast
    have wr: "broadcast_pass e2 (clientList s) buffer (written_ok (writes e2))"
      using e2 e1(1) by (simp add: broadcast_pass_def)
    let ?s2 = "s1\<lparr>clientList := written_ok (writes e2), trace := trace s1 @ e2\<rparr>"
    define now where "now = sys_result w (length (trace ?s2)) Sys_getMSTime"
    let ?c = "Sys Sys_getMSTime now"
    let ?s3 = "?s2\<lparr>trace := trace ?s2 @ [?c]\<rparr>"
    have G: "sys w Sys_getMSTime ?s2 = (now, ?s3)"
      by (simp add: sys_def emit_def Let_def now_def)
    have step: "Run_send (Suc k) w t0 s =
      (if now - t0 > tickTimer then Some (Break, ?s3) else Run_send k w t0 ?s3)"
      by (simp add: rc Chunk e2(1) G Let_def)
    show ?thesis
    proof (cases "now - t0 > tickTimer")
      case over: True
      with Suc.prems step have xs: "x = Break" "s' = ?s3" by auto
      from over have "over_budget t0 now" by (simp add: over_budget_def)
      from send_rounds.breaks [OF rd wr this]
      show ?thesis using xs e1(1)
        by (intro exI [of _ "e1 @ e2 @ [?c]"]) simp
    next
      case within: False
      with Suc.prems step have "Run_send k w t0 ?s3 = Some (x, s')" by simp
      from Suc.IH [OF this] obtain e3 where e3:
        "trace s' = trace ?s3 @ e3"
        "send_rounds t0 (clientList ?s3) e3 x (clientList s')"
        by blast
      from within have nb: "\<not> over_budget t0 now" by (simp add: over_budget_def)
      from e3(2) have "send_rounds t0 (written_ok (writes e2)) e3 x (clientList s')" by simp
      from send_rounds.continues [OF rd wr nb this]
      show ?thesis using e3(1) e1(1)
        by (intro exI [of _ "e1 @ e2 @ [?c] @ e3"]) simp
    qed
  qed
qed


lemma Run_cycle_eq:
  "Run_cycle k w s = Some (x, s') \<Longrightarrow>
   \<exists>c u t0 evs.
     trace s' = trace s @ accept_events (listenSocketFd s) c u t0 @ evs \<and>
     send_rounds t0 (clientList s @ (if c > 0 then [c] else [])) evs x (clientList s')"
proof -
  assume a: "Run_cycle k w s = Some (x, s')"
  from Run_accept_eq [of w s] obtain c u t0 where acc:
    "Run_accept w s =
       (t0, s\<lparr>clientList := clientList s @ (if c > 0 then [c] else []),
              trace := trace s @ accept_events (listenSocketFd s) c u t0\<rparr>)"
    by blast
  let ?s1 = "s\<lparr>clientList := clientList s @ (if c > 0 then [c] else []),
              trace := trace s @ accept_events (listenSocketFd s) c u t0\<rparr>"
  from a acc have "Run_send k w t0 ?s1 = Some (x, s')"
    by (simp add: Run_cycle_def)
  from Run_send_rounds [OF this] obtain evs where
    "trace s' = trace ?s1 @ evs" "send_rounds t0 (clientList ?s1) evs x (clientList s')"
    by blast
  then show ?thesis
    by (intro exI [of _ c] exI [of _ u] exI [of _ t0] exI [of _ evs]) simp
qed

text \<open>
  A cycle of the relay loop that comes to an end leaves in the trace, in this order: one
  \<^verbatim>\<open>accept4\<close> on the listen socket, which adds the accepted socket to the client
  list when it is positive and adds nothing otherwise; one sleep of 20 ms; the clock
  reading that starts the budget; then the rounds of the send loop, each a read of one
  chunk of 256 bytes, its broadcast to the clients and a clock reading. The send loop goes
  on while the reading is within the budget and ends by \<^verbatim>\<open>break\<close> at the first
  reading more than 30 ms after the start, after which the relay loop goes on with the
  next cycle, that is with the accept step; a read that returns a negative value or finds
  the flag set ends \<^verbatim>\<open>Run\<close>.
\<close>

lemma Run_cycle_trace:
  "Run_cycle k w s = Some (x, s') \<Longrightarrow>
   (\<exists>c u t0 evs.
      trace s' = trace s @ accept_events (listenSocketFd s) c u t0 @ evs \<and>
      send_rounds t0 (clientList s @ (if c > 0 then [c] else [])) evs x (clientList s')) \<and>
   Run_loop (Suc k) w s = (case x of Break \<Rightarrow> Run_loop k w s' | Return \<Rightarrow> Some s')"
  using Run_cycle_eq [of k w s x s'] by (simp split: send_exit.splits)

lemma over_budget_30: "over_budget t0 now \<longleftrightarrow> 30 < now - t0"
  by (simp add: over_budget_def tickTimer_def)

lemma Run_cycle_steady:
  "\<exists>s'. Run_cycle 3 world_steady streamer_running = Some (Break, s')"
  by (simp add: Run_cycle_def Run_accept_def Run_broadcastAndPrune_def sys_def sys_read_def
        poll_early_exit_def emit_def LOG_INFO_def Let_def sleepTime_def tickTimer_def
        BUFFER_SIZE_def world_steady_def streamer_running_def numeral_3_eq_3)

text \<open>
  Not every cycle comes to an end. From a state on in which the upstream socket is at the
  end of the stream and the flag is not set, every read returns 0, which line 309 does
  not take for a failure: the read loop makes no progress, and the cycle neither leaves
  \<^verbatim>\<open>Run\<close> nor comes back to the accept step, whatever the number of iterations
  allowed.
\<close>

lemma Run_readChunk_spins:
  "\<forall>t\<ge>length (trace s). read_result w t = Some [] \<and> \<not> early_exit_at w t \<Longrightarrow>
   0 < remaining \<Longrightarrow> Run_readChunk k w remaining buffer s = None"
proof (induction k arbitrary: s buffer)
  case 0
  show ?case by simp
next
  case (Suc k)
  let ?n = "length (trace s)"
  let ?s1 = "s\<lparr>trace := trace s @ [Poll_early_exit False]\<rparr>"
  let ?off = "BUFFER_SIZE - remaining"
  let ?s2 = "?s1\<lparr>trace := trace ?s1 @ [Sys_read (ffmpegSocketFd ?s1) ?off remaining (Some [])]\<rparr>"
  from Suc.prems(1) have now: "\<not> early_exit_at w ?n" "read_result w (Suc ?n) = Some []"
    by simp_all
  have P: "poll_early_exit w s = (False, ?s1)"
    using now by (simp add: poll_early_exit_def emit_def Let_def)
  have R: "sys_read w (ffmpegSocketFd s) ?off remaining ?s1 = (Some [], ?s2)"
    using now by (simp add: sys_read_def emit_def Let_def)
  have later: "\<forall>t\<ge>length (trace ?s2). read_result w t = Some [] \<and> \<not> early_exit_at w t"
    using Suc.prems(1) by simp
  have "Run_readChunk (Suc k) w remaining buffer s =
          Run_readChunk k w remaining (take (nat ?off) buffer @ []) ?s2"
    using Suc.prems(2) by (simp add: P R Let_def)
  also have "\<dots> = None"
    by (rule Suc.IH [OF later Suc.prems(2)])
  finally show ?case .
qed

lemma Run_cycle_spins:
  "\<forall>t\<ge>length (trace s). read_result w t = Some [] \<and> \<not> early_exit_at w t \<Longrightarrow>
   Run_cycle k w s = None"
proof -
  assume eos: "\<forall>t\<ge>length (trace s). read_result w t = Some [] \<and> \<not> early_exit_at w t"
  from Run_accept_eq [of w s] obtain c u t0 where acc:
    "Run_accept w s =
       (t0, s\<lparr>clientList := clientList s @ (if c > 0 then [c] else []),
              trace := trace s @ accept_events (listenSocketFd s) c u t0\<rparr>)"
    by blast
  let ?s1 = "s\<lparr>clientList := clientList s @ (if c > 0 then [c] else []),
              trace := trace s @ accept_events (listenSocketFd s) c u t0\<rparr>"
  from eos have later: "\<forall>t\<ge>length (trace ?s1). read_result w t = Some [] \<and> \<not> early_exit_at w t"
    by simp
  have "Run_send k w t0 ?s1 = None"
  proof (cases k)
    case 0
    then show ?thesis by simp
  next
    case (Suc j)
    have "Run_readChunk j w BUFFER_SIZE [] ?s1 = None"
      by (rule Run_readChunk_spins [OF later]) (simp add: BUFFER_SIZE_def)
    with Suc show ?thesis by simp
  qed
  with acc show ?thesis by (simp add: Run_cycle_def)
qed

text \<open>
  C3 (the code departs from the claim). When the transcoder has closed the stream, the
  cycle of the relay loop does not make the transition to the cleanup: after the accept
  step and the sleep its send loop reads for ever, so that neither the cycle nor the
  relay loop ends, and no further client is accepted.
\<close>

theorem Run_cycle_never_ends_at_end_of_stream:
  "Run_cycle k world_end_of_stream s = None \<and> Run_loop k world_end_of_stream s = None"
proof -
  have cycle: "Run_cycle k world_end_of_stream s = None" for k s
    by (rule Run_cycle_spins) (simp add: world_end_of_stream_def)
  have "Run_loop k world_end_of_stream s = None"
    by (cases k) (simp_all add: cycle)
  with cycle show ?thesis by simp
qed

text \<open>
  C10. A cycle that ends by the \<^verbatim>\<open>break\<close> of line 333 has, between the clock reading
  that starts the budget and the first reading compared with it, the complete read of one
  chunk of 256 bytes and its broadcast to the client list: no reading of the clock comes
  before them, whatever the clock says.
\<close>

theorem Run_cycle_break_after_chunk:
  "Run_cycle k w s = Some (Break, s') \<Longrightarrow>
   \<exists>c u t0 rd chunk wr clients' now rest.
     trace s' =
       trace s @ accept_events (listenSocketFd s) c u t0 @ rd @ wr @ Sys Sys_getMSTime now # rest \<and>
     chunk_read rd chunk \<and>
     broadcast_pass wr (clientList s @ (if c > 0 then [c] else [])) chunk clients'"
proof -
  assume "Run_cycle k w s = Some (Break, s')"
  from Run_cycle_eq [OF this] obtain c u t0 evs where
    tr: "trace s' = trace s @ accept_events (listenSocketFd s) c u t0 @ evs" and
    sr: "send_rounds t0 (clientList s @ (if c > 0 then [c] else [])) evs Break (clientList s')"
    by blast
  from sr show ?thesis
  proof (cases rule: send_rounds.cases)
    case (breaks rd chunk wr now)
    with tr show ?thesis by (intro exI conjI) auto
  next
    case (continues rd chunk wr clients' now evs')
    with tr show ?thesis by (intro exI conjI) auto
  qed
qed

text \<open>
  In the steady world the first reading after the start is 120 ms later, far over the
  budget, and the chunk has been read and broadcast before it.
\<close>

theorem Run_cycle_break_after_chunk_witness:
  "\<exists>s'. Run_cycle 3 world_steady streamer_running = Some (Break, s') \<and>
     (\<exists>c u t0 rd chunk wr clients' now rest.
        trace s' =
          trace streamer_running @ accept_events (listenSocketFd streamer_running) c u t0 @
          rd @ wr @ Sys Sys_getMSTime now # rest \<and>
        chunk_read rd chunk \<and>
        broadcast_pass wr (clientList streamer_running @ (if c > 0 then [c] else [])) chunk
          clients')"
proof -
  from Run_cycle_steady obtain s' where
    h: "Run_cycle 3 world_steady streamer_running = Some (Break, s')" ..
  from Run_cycle_break_after_chunk [OF h] h show ?thesis by blast
qed

section \<open>The connect loop\<close>

lemma Initialize_connect_eq:
  "Initialize_connect k w s = Some (x, s') \<Longrightarrow>
   \<exists>evs. s' = s\<lparr>trace := trace s @ evs\<rparr> \<and>
         connect_rounds (Sys_connect (ffmpegSocketFd s) ffmpegHost (htons (ffmpegPort s))) evs x"
proof (induction k arbitrary: s)
  case 0
  then show ?case by simp
next
  case (Suc k)
  let ?call = "Sys_connect (ffmpegSocketFd s) ffmpegHost (htons (ffmpegPort s))"
  define b where "b = early_exit_at w (length (trace s))"
  let ?s1 = "s\<lparr>trace := trace s @ [Poll_early_exit b]\<rparr>"
  have P: "poll_early_exit w s = (b, ?s1)"
    by (simp add: poll_early_exit_def emit_def Let_def b_def)
  show ?case
  proof (cases b)
    case True
    let ?l = "Log Info ''Exiting early...'' []"
    from Suc.prems P True have "x = False" "s' = ?s1\<lparr>trace := trace ?s1 @ [?l]\<rparr>"
      by (auto simp: LOG_INFO_def emit_def)
    with True connect_rounds.cancelled [of ?call] show ?thesis
      by (intro exI [of _ "[Poll_early_exit True, ?l]"]) simp
  next
    case False
    define r where "r = sys_result w (length (trace ?s1)) ?call"
    let ?s2 = "?s1\<lparr>trace := trace ?s1 @ [Sys ?call r]\<rparr>"
    have C: "sys w (Sys_connect (ffmpegSocketFd ?s1) ffmpegHost (htons (ffmpegPort ?s1))) ?s1 = (r, ?s2)"
      by (simp add: sys_def emit_def Let_def r_def)
    show ?thesis
    proof (cases "0 \<le> r")
      case True
      from Suc.prems P False C True have "x = True" "s' = ?s2" by auto
      with False connect_rounds.connected [OF True, of ?call] show ?thesis
        by (intro exI [of _ "[Poll_early_exit False, Sys ?call r]"]) simp
    next
      case neg: False
      define u where "u = sys_result w (length (trace ?s2)) (Sys_usleep 500000)"
      let ?s3 = "?s2\<lparr>trace := trace ?s2 @ [Sys (Sys_usleep 500000) u]\<rparr>"
      have U: "snd (sys w (Sys_usleep (500 * 1000)) ?s2) = ?s3"
        by (simp add: sys_def emit_def Let_def u_def)
      from Suc.prems P False C neg U have "Initialize_connect k w ?s3 = Some (x, s')"
        by simp
      from Suc.IH [OF this] obtain evs where evs:
        "s' = ?s3\<lparr>trace := trace ?s3 @ evs\<rparr>"
        "connect_rounds (Sys_connect (ffmpegSocketFd ?s3) ffmpegHost (htons (ffmpegPort ?s3))) evs x"
        by blast
      from neg have "r < 0" by simp
      from connect_rounds.retried [OF this, of ?call evs x u] evs(2)
      have "connect_rounds ?call
              (Poll_early_exit False # Sys ?call r # Sys (Sys_usleep 500000) u # evs) x"
        by simp
      with evs(1) False show ?thesis
        by (intro exI [of _ "Poll_early_exit False # Sys ?call r # Sys (Sys_usleep 500000) u # evs"])
           simp
    qed
  qed
qed

text \<open>
  C4. Every round of the connect loop reads the flag before it attempts to connect, and
  between two readings of the flag lie one connect attempt and one sleep of 500 ms, no
  more. When the flag is read as set, the loop returns false at once, with the line
  \<^verbatim>\<open>Exiting early...\<close> logged and no further connect attempt.
\<close>

theorem Initialize_connect_polls_first:
  "(Initialize_connect k w s = Some (x, s') \<longrightarrow>
      (\<exists>evs. s' = s\<lparr>trace := trace s @ evs\<rparr> \<and>
         connect_rounds (Sys_connect (ffmpegSocketFd s) ffmpegHost (htons (ffmpegPort s))) evs x)) \<and>
   (early_exit_at w (length (trace s)) \<longrightarrow>
      Initialize_connect (Suc k) w s =
        Some (False, s\<lparr>trace := trace s @
                        [Poll_early_exit True, Log Info ''Exiting early...'' []]\<rparr>))"
  using Initialize_connect_eq [of k w s x s']
  by (simp add: poll_early_exit_def emit_def LOG_INFO_def Let_def)

lemma Initialize_connect_cancel:
  "Initialize_connect 3 world_cancel streamer_configured =
     Some (False, streamer_configured\<lparr>trace :=
       [Poll_early_exit False, Sys (Sys_connect 0 ''127.0.0.1'' 9601) (- 1),
        Sys (Sys_usleep 500000) (- 1),
        Poll_early_exit False, Sys (Sys_connect 0 ''127.0.0.1'' 9601) (- 1),
        Sys (Sys_usleep 500000) (- 1),
        Poll_early_exit True, Log Info ''Exiting early...'' []]\<rparr>)"
  by (simp add: numeral_3_eq_3 poll_early_exit_def sys_def emit_def LOG_INFO_def Let_def
        world_cancel_def streamer_configured_def ffmpegHost_def htons_def)


text \<open>
  The flag is set during the second connect attempt: the loop returns at the third
  reading of the flag, after two attempts, and from the state reached after the second
  sleep a single round returns.
\<close>

theorem Initialize_connect_polls_first_witness:
  "(\<exists>evs. Initialize_connect 3 world_cancel streamer_configured =
            Some (False, streamer_configured\<lparr>trace := trace streamer_configured @ evs\<rparr>) \<and>
          connect_rounds (Sys_connect 0 ''127.0.0.1'' 9601) evs False) \<and>
   early_exit_at world_cancel 6 \<and>
   Initialize_connect (Suc 0) world_cancel
     (streamer_configured\<lparr>trace :=
        [Poll_early_exit False, Sys (Sys_connect 0 ''127.0.0.1'' 9601) (- 1),
         Sys (Sys_usleep 500000) (- 1),
         Poll_early_exit False, Sys (Sys_connect 0 ''127.0.0.1'' 9601) (- 1),
         Sys (Sys_usleep 500000) (- 1)]\<rparr>) =
     Some (False, streamer_configured\<lparr>trace :=
       [Poll_early_exit False, Sys (Sys_connect 0 ''127.0.0.1'' 9601) (- 1),
        Sys (Sys_usleep 500000) (- 1),
        Poll_early_exit False, Sys (Sys_connect 0 ''127.0.0.1'' 9601) (- 1),
        Sys (Sys_usleep 500000) (- 1),
        Poll_early_exit True, Log Info ''Exiting early...'' []]\<rparr>)"
proof -
  let ?evs = "[Poll_early_exit False, Sys (Sys_connect 0 ''127.0.0.1'' 9601) (- 1),
        Sys (Sys_usleep 500000) (- 1),
        Poll_early_exit False, Sys (Sys_connect 0 ''127.0.0.1'' 9601) (- 1),
        Sys (Sys_usleep 500000) (- 1)]"
  let ?S = "streamer_configured\<lparr>trace := ?evs @ [Poll_early_exit True, Log Info ''Exiting early...'' []]\<rparr>"
  have h1: "Initialize_connect 3 world_cancel streamer_configured = Some (False, ?S)"
    using Initialize_connect_cancel by simp
  have f: "ffmpegSocketFd streamer_configured = 0" "htons (ffmpegPort streamer_configured) = 9601"
    "ffmpegHost = ''127.0.0.1''" "trace streamer_configured = []"
    by (simp_all add: streamer_configured_def htons_def ffmpegHost_def)
  from Initialize_connect_polls_first [of 3 world_cancel streamer_configured False ?S] h1
  obtain evs where evs: "?S = streamer_configured\<lparr>trace := trace streamer_configured @ evs\<rparr>"
    "connect_rounds (Sys_connect 0 ''127.0.0.1'' 9601) evs False"
    unfolding f by blast
  have a: "\<exists>evs. Initialize_connect 3 world_cancel streamer_configured =
            Some (False, streamer_configured\<lparr>trace := trace streamer_configured @ evs\<rparr>) \<and>
          connect_rounds (Sys_connect 0 ''127.0.0.1'' 9601) evs False"
    using h1 evs by (intro exI [of _ evs]) simp
  have h2: "early_exit_at world_cancel (length (trace (streamer_configured\<lparr>trace := ?evs\<rparr>)))"
    by (simp add: world_cancel_def)
  have h2': "early_exit_at world_cancel 6" by (simp add: world_cancel_def)
  from Initialize_connect_polls_first [of 0 world_cancel "streamer_configured\<lparr>trace := ?evs\<rparr>"] h2
  have b: "Initialize_connect (Suc 0) world_cancel (streamer_configured\<lparr>trace := ?evs\<rparr>) =
     Some (False, ?S)"
    by simp
  from a h2' b show ?thesis by simp
qed

section \<open>A run in which fork fails\<close>

lemma parse_options_defaults:
  "parse_options argv_defaults 3 sl = Inr sl"
  by (cases sl) (simp add: parse_options.simps argv_defaults_def)

lemma run_defaults:
  "run k w argv_defaults (Streamer 0 0 0 0 0) =
     (case Initialize k w streamer_configured of
        None \<Rightarrow> None
      | Some (Throws, s4) \<Rightarrow> Some (Throws, s4)
      | Some (Execs, s4) \<Rightarrow> Some (Execs, s4)
      | Some (Returns True, s4) \<Rightarrow>
          (case Run k w s4 of
             None \<Rightarrow> None
           | Some s5 \<Rightarrow> Some (run_close w 0 s5))
      | Some (Returns False, s4) \<Rightarrow>
          Some (run_close w 1 (LOG_ERROR ''Streamer initialization failed'' [] s4)))"
proof -
  let ?s1 = "Streamer 0 0 0 0 0
      \<lparr>videoFilePath := argv_defaults ! 1, transport := ''tcp'', host := ''localhost'',
         listenPort := 9600, ffmpegPort := 9601\<rparr>"
  have s3: "?s1\<lparr>streamEntry :=
           \<lparr>streamName = argv_defaults ! 2,
              endpoint = transport ?s1 @ ''://'' @ host ?s1 @ '':'' @ to_string (listenPort ?s1),
              videoSize = ''480x270'', bitRate = ''400k'',
              keyword = keyword (streamEntry ?s1) @ getline_loop [] []\<rparr>\<rparr> = streamer_configured"
    by (simp add: Streamer_def streamer_configured_def entry1_def argv_defaults_def
          to_string_def to_string_nat.simps digit_char_def)
  have len: "\<not> length argv_defaults < 3" by (simp add: argv_defaults_def)
  show ?thesis
    unfolding run_def
    by (simp only: len if_False Let_def parse_options_defaults sum.case prod.case
          run_locals.simps s3)
qed


lemma Initialize_fork_fails:
  "\<exists>tr. Initialize 3 world_fork_fails streamer_configured =
          Some (Returns True,
                streamer_configured\<lparr>portal := True, listenSocketFd := 3, ffmpegSocketFd := 4,
                  ffmpegPid := - 1, trace := tr\<rparr>) \<and>
        calls tr =
          [ICE (Ice_propertyToProxy ''Portal.Proxy''), ICE Ice_checkedCast,
           OS Sys_socket_nonblock, OS (Sys_bind 3 9600), OS (Sys_listen 3 10),
           OS (Sys_setsockopt_reuseaddr 3), OS Sys_fork, OS Sys_socket,
           OS (Sys_gethostbyname ''127.0.0.1''), OS (Sys_connect 4 ''127.0.0.1'' 9601),
           ICE (Ice_NewStream entry1)]"
  by (simp add: Initialize_def Initialize_portal_def Initialize_listen_def Initialize_fork_def
        Initialize_socket_def ice_def sys_def poll_early_exit_def emit_def LOG_INFO_def
        LOG_ERROR_def Let_def world_fork_fails_def streamer_configured_def htons_def
        ffmpegHost_def LISTEN_BACKLOG_def numeral_3_eq_3)

lemma Run_read_fails:
  "\<exists>evs. Run 3 world_fork_fails s = Some (s\<lparr>trace := trace s @ evs\<rparr>) \<and>
         calls evs = [OS (Sys_accept4 (listenSocketFd s)), OS (Sys_usleep 20000), OS Sys_getMSTime]"
  apply (simp add: Run_def Run_cycle_def Run_accept_def sys_def sys_read_def poll_early_exit_def
        emit_def LOG_INFO_def LOG_ERROR_def Let_def sleepTime_def BUFFER_SIZE_def
        world_fork_fails_def numeral_3_eq_3)
  apply (rule exI, rule conjI [OF refl])
  apply simp
  done

text \<open>
  C7 (the code departs from the claim). The value of \<^verbatim>\<open>fork\<close> is compared with 0
  only, so its failure, \<open>-1\<close>, goes unnoticed, while the failures of \<^verbatim>\<open>socket\<close>,
  \<^verbatim>\<open>bind\<close> and \<^verbatim>\<open>listen\<close> a few lines above are checked and end
  \<^verbatim>\<open>Initialize\<close>. In a world where \<^verbatim>\<open>fork\<close> fails and the connect is accepted,
  \<^verbatim>\<open>Initialize\<close> connects, registers the stream and returns true, \<^verbatim>\<open>Run\<close> is
  entered, and \<^verbatim>\<open>run\<close> ends with the exit code 0.
\<close>

theorem run_fork_fails_reaches_Run:
  "\<exists>s'. run 3 world_fork_fails argv_defaults (Streamer 0 0 0 0 0) = Some (Returns 0, s') \<and>
      ffmpegPid s' = - 1 \<and>
      calls (trace s') =
        [ICE (Ice_propertyToProxy ''Portal.Proxy''), ICE Ice_checkedCast,
         OS Sys_socket_nonblock, OS (Sys_bind 3 9600), OS (Sys_listen 3 10),
         OS (Sys_setsockopt_reuseaddr 3), OS Sys_fork, OS Sys_socket,
         OS (Sys_gethostbyname ''127.0.0.1''), OS (Sys_connect 4 ''127.0.0.1'' 9601),
         ICE (Ice_NewStream entry1),
         OS (Sys_accept4 3), OS (Sys_usleep 20000), OS Sys_getMSTime,
         OS (Sys_shutdown 3), OS (Sys_close 3), OS (Sys_shutdown 4), OS (Sys_close 4),
         ICE (Ice_CloseStream entry1)]"
proof -
  let ?w = world_fork_fails
  from Initialize_fork_fails obtain tr where
    I: "Initialize 3 ?w streamer_configured =
          Some (Returns True,
                streamer_configured\<lparr>portal := True, listenSocketFd := 3, ffmpegSocketFd := 4,
                  ffmpegPid := - 1, trace := tr\<rparr>)" and
    tr: "calls tr =
          [ICE (Ice_propertyToProxy ''Portal.Proxy''), ICE Ice_checkedCast,
           OS Sys_socket_nonblock, OS (Sys_bind 3 9600), OS (Sys_listen 3 10),
           OS (Sys_setsockopt_reuseaddr 3), OS Sys_fork, OS Sys_socket,
           OS (Sys_gethostbyname ''127.0.0.1''), OS (Sys_connect 4 ''127.0.0.1'' 9601),
           ICE (Ice_NewStream entry1)]"
    by blast
  define s4 where "s4 = streamer_configured\<lparr>portal := True, listenSocketFd := 3,
    ffmpegSocketFd := 4, ffmpegPid := - 1, trace := tr\<rparr>"
  from Run_read_fails [of s4] obtain e5 where
    R: "Run 3 ?w s4 = Some (s4\<lparr>trace := trace s4 @ e5\<rparr>)" and
    e5: "calls e5 = [OS (Sys_accept4 (listenSocketFd s4)), OS (Sys_usleep 20000), OS Sys_getMSTime]"
    by blast
  define s5 where "s5 = s4\<lparr>trace := trace s4 @ e5\<rparr>"
  have f5: "portal s5" "listenSocketFd s5 = 3" "ffmpegSocketFd s5 = 4" "ffmpegPid s5 = - 1"
    "clientList s5 = []" "streamEntry s5 = entry1" "trace s5 = tr @ e5" "listenSocketFd s4 = 3"
    by (simp_all add: s5_def s4_def streamer_configured_def)
  from Close_eq [of ?w s5] obtain e6 where
    C: "snd (Close ?w s5) = s5\<lparr>clientList := [], trace := trace s5 @ e6\<rparr>" and
    e6: "calls e6 = before_CloseStream s5 @
       (if portal s5 then
          ICE (Ice_CloseStream (streamEntry s5)) #
            (if CloseStream_raises ?w s5 then [] else ffmpeg_calls (ffmpegPid s5))
        else ffmpeg_calls (ffmpegPid s5))" and
    o6: "fst (Close ?w s5) = (if portal s5 \<and> CloseStream_raises ?w s5 then Throws else Returns ())"
    by blast
  have nr: "\<not> CloseStream_raises ?w s5"
    by (simp add: CloseStream_raises_def world_fork_fails_def)
  have e6': "calls e6 = [OS (Sys_shutdown 3), OS (Sys_close 3), OS (Sys_shutdown 4),
      OS (Sys_close 4), ICE (Ice_CloseStream entry1)]"
    unfolding e6 by (simp add: nr f5 before_CloseStream_def socket_calls_def ffmpeg_calls_def)
  have "Close ?w s5 = (Returns (), s5\<lparr>clientList := [], trace := trace s5 @ e6\<rparr>)"
    using C o6 nr by (cases "Close ?w s5") simp
  then have rc: "run_close ?w 0 s5 = (Returns 0, s5\<lparr>clientList := [], trace := trace s5 @ e6\<rparr>)"
    by (simp add: run_close_def)
  have I': "Initialize 3 ?w streamer_configured = Some (Returns True, s4)"
    using I by (simp add: s4_def)
  have R': "Run 3 ?w s4 = Some s5"
    using R by (simp add: s5_def)
  have "run 3 ?w argv_defaults (Streamer 0 0 0 0 0) =
          Some (Returns 0, s5\<lparr>clientList := [], trace := trace s5 @ e6\<rparr>)"
    by (simp add: run_defaults I' R' rc)
  then show ?thesis
    by (intro exI [of _ "s5\<lparr>clientList := [], trace := trace s5 @ e6\<rparr>"])
       (simp add: f5 tr e5 e6')
qed

section \<open>Registration and deregistration\<close>

lemma stream_calls_simps [simp]:
  "stream_calls [] = []" "stream_calls (xs @ ys) = stream_calls xs @ stream_calls ys"
  by (simp_all add: stream_calls_def)

lemma stream_calls_no_ice: "ice_calls evs = [] \<Longrightarrow> stream_calls evs = []"
  by (simp add: stream_calls_def)

lemma ice_calls_single [simp]:
  "ice_calls [Sys c r] = []" "ice_calls [Log lv fmt args] = []" "ice_calls [Poll_early_exit b] = []"
  "ice_calls [Sys_read fd off cnt rr] = []" "ice_calls [Ice ic a] = [ic]"
  by (simp_all add: ice_calls_def)

lemma Initialize_listen_frame:
  "ice_calls (trace (snd (Initialize_listen w s))) = ice_calls (trace s) \<and>
   portal (snd (Initialize_listen w s)) = portal s \<and>
   streamEntry (snd (Initialize_listen w s)) = streamEntry s \<and>
   clientList (snd (Initialize_listen w s)) = clientList s"
  by (simp add: Initialize_listen_def sys_def emit_def LOG_INFO_def LOG_ERROR_def Let_def)

lemma Initialize_fork_frame:
  "ice_calls (trace (snd (Initialize_fork w s))) = ice_calls (trace s) \<and>
   portal (snd (Initialize_fork w s)) = portal s \<and>
   streamEntry (snd (Initialize_fork w s)) = streamEntry s \<and>
   clientList (snd (Initialize_fork w s)) = clientList s"
  by (simp add: Initialize_fork_def sys_def emit_def LOG_INFO_def LOG_ERROR_def Let_def)

lemma Initialize_socket_frame:
  "ice_calls (trace (Initialize_socket w s)) = ice_calls (trace s) \<and>
   portal (Initialize_socket w s) = portal s \<and>
   streamEntry (Initialize_socket w s) = streamEntry s \<and>
   clientList (Initialize_socket w s) = clientList s"
  by (simp add: Initialize_socket_def sys_def emit_def Let_def)

lemma connect_rounds_no_ice: "connect_rounds c evs x \<Longrightarrow> ice_calls evs = []"
  by (induction rule: connect_rounds.induct) simp_all

lemma Initialize_connect_frame:
  "Initialize_connect k w s = Some (x, s') \<Longrightarrow>
   ice_calls (trace s') = ice_calls (trace s) \<and> portal s' = portal s \<and>
   streamEntry s' = streamEntry s \<and> clientList s' = clientList s"
proof -
  assume "Initialize_connect k w s = Some (x, s')"
  from Initialize_connect_eq [OF this] obtain evs where
    "s' = s\<lparr>trace := trace s @ evs\<rparr>"
    "connect_rounds (Sys_connect (ffmpegSocketFd s) ffmpegHost (htons (ffmpegPort s))) evs x"
    by blast
  then show ?thesis by (simp add: connect_rounds_no_ice)
qed

lemma Initialize_portal_frame:
  "stream_calls (trace (snd (Initialize_portal w s))) = stream_calls (trace s) \<and>
   streamEntry (snd (Initialize_portal w s)) = streamEntry s \<and>
   clientList (snd (Initialize_portal w s)) = clientList s"
  by (simp add: Initialize_portal_def ice_def emit_def Let_def stream_calls_def
        split: ice_answer.splits)


lemma Initialize_frame:
  "Initialize k w s = Some (x, s') \<Longrightarrow>
   streamEntry s' = streamEntry s \<and> clientList s' = clientList s \<and>
   (case x of
      Returns b \<Rightarrow>
        stream_calls (trace s') =
          stream_calls (trace s) @ (if b then [Ice_NewStream (streamEntry s)] else []) \<and>
        (b \<longrightarrow> portal s')
    | _ \<Rightarrow> True)"
proof -
  assume a: "Initialize k w s = Some (x, s')"
  obtain o1 s1 where P: "Initialize_portal w s = (o1, s1)" by (cases "Initialize_portal w s")
  from Initialize_portal_frame [of w s] P have f1:
    "stream_calls (trace s1) = stream_calls (trace s)" "streamEntry s1 = streamEntry s"
    "clientList s1 = clientList s"
    by simp_all
  show ?thesis
  proof (cases o1)
    case Throws
    with a P have "x = Throws" "s' = s1" by (auto simp: Initialize_def)
    with f1 show ?thesis by simp
  next
    case Execs
    with a P have "x = Execs" "s' = s1" by (auto simp: Initialize_def)
    with f1 show ?thesis by simp
  next
    case (Returns u)
    show ?thesis
    proof (cases "portal s1")
      case False
      with a P Returns have "x = Returns False" "s' = LOG_ERROR ''failed to find portal'' [] s1"
        by (auto simp: Initialize_def)
      with f1 show ?thesis by (simp add: LOG_ERROR_def emit_def stream_calls_def)
    next
      case found: True
      obtain b2 s2 where L: "Initialize_listen w s1 = (b2, s2)" by (cases "Initialize_listen w s1")
      from Initialize_listen_frame [of w s1] L have f2:
        "ice_calls (trace s2) = ice_calls (trace s1)" "portal s2 = portal s1"
        "streamEntry s2 = streamEntry s1" "clientList s2 = clientList s1"
        by simp_all
      show ?thesis
      proof (cases b2)
        case False
        with a P Returns found L have "x = Returns False" "s' = s2"
          by (auto simp: Initialize_def)
        with f1 f2 show ?thesis by (simp add: stream_calls_def)
      next
        case listening: True
        obtain b3 s3 where F: "Initialize_fork w s2 = (b3, s3)" by (cases "Initialize_fork w s2")
        from Initialize_fork_frame [of w s2] F have f3:
          "ice_calls (trace s3) = ice_calls (trace s2)" "portal s3 = portal s2"
          "streamEntry s3 = streamEntry s2" "clientList s3 = clientList s2"
          by simp_all
        show ?thesis
        proof (cases b3)
          case False
          with a P Returns found L listening F have "x = Execs" "s' = s3"
            by (auto simp: Initialize_def)
          with f1 f2 f3 show ?thesis by simp
        next
          case forked: True
          let ?s3' = "Initialize_socket w s3"
          from Initialize_socket_frame [of w s3] have f3':
            "ice_calls (trace ?s3') = ice_calls (trace s3)" "portal ?s3' = portal s3"
            "streamEntry ?s3' = streamEntry s3" "clientList ?s3' = clientList s3"
            by simp_all
          from a P Returns found L listening F forked
          obtain b4 s4 where C: "Initialize_connect k w ?s3' = Some (b4, s4)"
            by (cases "Initialize_connect k w ?s3'") (auto simp: Initialize_def)
          from Initialize_connect_frame [OF C] have f4:
            "ice_calls (trace s4) = ice_calls (trace ?s3')" "portal s4 = portal ?s3'"
            "streamEntry s4 = streamEntry ?s3'" "clientList s4 = clientList ?s3'"
            by simp_all
          have chain: "stream_calls (trace s4) = stream_calls (trace s)"
            "streamEntry s4 = streamEntry s" "clientList s4 = clientList s" "portal s4"
            using f1 f2 f3 f3' f4 found by (simp_all add: stream_calls_def)
          show ?thesis
          proof (cases b4)
            case False
            with a P Returns found L listening F forked C have "x = Returns False" "s' = s4"
              by (auto simp: Initialize_def)
            with chain show ?thesis by simp
          next
            case connected: True
            define r where "r = ice_result w (length (trace s4)) (Ice_NewStream (streamEntry s4))"
            let ?s5 = "s4\<lparr>trace := trace s4 @ [Ice (Ice_NewStream (streamEntry s4)) r]\<rparr>"
            have N: "ice w (Ice_NewStream (streamEntry s4)) s4 = (r, ?s5)"
              by (simp add: ice_def emit_def Let_def r_def)
            from a P Returns found L listening F forked C connected N
            have x: "x = (if r = Ice_exception then Throws else Returns True)" "s' = ?s5"
              by (auto simp: Initialize_def split: ice_answer.splits)
            with chain show ?thesis
              by (simp add: stream_calls_def)
          qed
        qed
      qed
    qed
  qed
qed


lemma Run_cycle_frame:
  "Run_cycle k w s = Some (x, s') \<Longrightarrow>
   ice_calls (trace s') = ice_calls (trace s) \<and> portal s' = portal s \<and>
   streamEntry s' = streamEntry s"
proof -
  assume a: "Run_cycle k w s = Some (x, s')"
  from Run_accept_eq [of w s] obtain c u t0 where acc:
    "Run_accept w s =
       (t0, s\<lparr>clientList := clientList s @ (if c > 0 then [c] else []),
              trace := trace s @ accept_events (listenSocketFd s) c u t0\<rparr>)"
    by blast
  let ?s1 = "s\<lparr>clientList := clientList s @ (if c > 0 then [c] else []),
              trace := trace s @ accept_events (listenSocketFd s) c u t0\<rparr>"
  have ae: "ice_calls (accept_events (listenSocketFd s) c u t0) = []"
    by (simp add: accept_events_def ice_calls_def)
  from a acc have "Run_send k w t0 ?s1 = Some (x, s')"
    by (simp add: Run_cycle_def)
  from Run_send_eq [OF this] obtain evs where
    "s' = ?s1\<lparr>clientList := clientList s', trace := trace ?s1 @ evs\<rparr>" "ice_calls evs = []"
    by blast
  then obtain cl where s': "s' = ?s1\<lparr>clientList := cl, trace := trace ?s1 @ evs\<rparr>"
    and ie: "ice_calls evs = []"
    by blast
  show ?thesis
    by (simp add: s' ae ie)
qed


lemma Run_loop_frame:
  "Run_loop k w s = Some s' \<Longrightarrow>
   ice_calls (trace s') = ice_calls (trace s) \<and> portal s' = portal s \<and>
   streamEntry s' = streamEntry s"
proof (induction k arbitrary: s)
  case 0
  then show ?case by simp
next
  case (Suc k)
  from Suc.prems obtain x s1 where c: "Run_cycle k w s = Some (x, s1)"
    by (cases "Run_cycle k w s") auto
  note f = Run_cycle_frame [OF c]
  show ?case
  proof (cases x)
    case Return
    with Suc.prems c have "s' = s1" by simp
    with f show ?thesis by simp
  next
    case Break
    with Suc.prems c have "Run_loop k w s1 = Some s'" by simp
    from Suc.IH [OF this] f show ?thesis by simp
  qed
qed

lemma Run_frame:
  "Run k w s = Some s' \<Longrightarrow>
   stream_calls (trace s') = stream_calls (trace s) \<and> portal s' = portal s \<and>
   streamEntry s' = streamEntry s"
proof -
  assume "Run k w s = Some s'"
  then have "Run_loop k w (LOG_INFO ''Streamer ready'' [] s) = Some s'"
    by (simp add: Run_def)
  from Run_loop_frame [OF this] show ?thesis
    by (simp add: LOG_INFO_def emit_def stream_calls_def)
qed

lemma parse_options_frame:
  "ice_calls (trace (case_sum id fst (parse_options argv i sl))) = ice_calls (trace (fst sl)) \<and>
   portal (case_sum id fst (parse_options argv i sl)) = portal (fst sl)"
proof (induction "length argv - i" arbitrary: i sl)
  case 0
  obtain s l where sl: "sl = (s, l)" by (cases sl)
  from 0 show ?case by (simp add: sl parse_options.simps [of argv i])
next
  case (Suc n)
  obtain s l where sl: "sl = (s, l)" by (cases sl)
  show ?case
  proof (cases "i + 1 \<ge> length argv")
    case True
    with Suc.hyps(2) show ?thesis
      by (simp add: sl parse_options.simps [of argv i] LOG_INFO_def emit_def)
  next
    case False
    from Suc.hyps(2) have n: "n = length argv - (i + 1)" by simp
    define option where "option = argv ! i"
    define arg where "arg = argv ! (i + 1)"
    define sl' where "sl' =
      (if option = ''--transport'' then (s\<lparr>transport := arg\<rparr>, l)
       else if option = ''--host'' then (s\<lparr>host := arg\<rparr>, l)
       else if option = ''--port'' then (s\<lparr>listenPort := atoi arg\<rparr>, l)
       else if option = ''--ffmpeg_port'' then (s\<lparr>ffmpegPort := atoi arg\<rparr>, l)
       else if option = ''--video_size'' then (s, l\<lparr>l_videoSize := arg\<rparr>)
       else if option = ''--bit_rate'' then (s, l\<lparr>l_bitRate := arg\<rparr>)
       else if option = ''--keywords'' then (s, l\<lparr>l_keywords := arg\<rparr>)
       else (LOG_INFO ''Unrecognized option '%s', skipping'' [option] s, l))"
    have step: "parse_options argv i sl = parse_options argv (i + 1) sl'"
      using False unfolding sl sl'_def option_def arg_def
      by (subst parse_options.simps) (simp add: Let_def)
    have fr: "ice_calls (trace (fst sl')) = ice_calls (trace s)" "portal (fst sl') = portal s"
      by (simp_all add: sl'_def LOG_INFO_def emit_def)
    from Suc.hyps(1) [OF n, of sl'] fr show ?thesis
      by (simp add: step [unfolded sl] sl)
  qed
qed


lemma ice_calls_OS: "concat (map ice_call_of (map (\<lambda>c. OS (f c)) xs)) = []"
  by (induction xs) simp_all

lemma Close_stream_calls:
  "stream_calls (trace (snd (Close w s))) =
     stream_calls (trace s) @ (if portal s then [Ice_CloseStream (streamEntry s)] else []) \<and>
   portal (snd (Close w s)) = portal s \<and> streamEntry (snd (Close w s)) = streamEntry s"
proof -
  from Close_eq [of w s] obtain evs where
    1: "snd (Close w s) = s\<lparr>clientList := [], trace := trace s @ evs\<rparr>" and
    2: "calls evs = before_CloseStream s @
       (if portal s then
          ICE (Ice_CloseStream (streamEntry s)) #
            (if CloseStream_raises w s then [] else ffmpeg_calls (ffmpegPid s))
        else ffmpeg_calls (ffmpegPid s))"
    by blast
  have "ice_calls evs = (if portal s then [Ice_CloseStream (streamEntry s)] else [])"
    unfolding ice_calls_def 2
    by (simp add: before_CloseStream_def socket_calls_def ffmpeg_calls_def ice_calls_OS)
  then have "stream_calls evs = (if portal s then [Ice_CloseStream (streamEntry s)] else [])"
    by (simp add: stream_calls_def)
  then show ?thesis by (simp add: 1)
qed

lemma run_close_Returns:
  "run_close w c s = (Returns code, s') \<Longrightarrow> code = c \<and> s' = snd (Close w s)"
  by (cases "Close w s"; cases "fst (Close w s)") (auto simp: run_close_def)

lemma PrintUsage_frame:
  "ice_calls (trace (PrintUsage s)) = ice_calls (trace s) \<and> portal (PrintUsage s) = portal s"
  by (simp add: PrintUsage_def LOG_INFO_def emit_def Let_def)

text \<open>
  C6 (amended). \<^verbatim>\<open>Close\<close> calls \<^verbatim>\<open>CloseStream\<close> exactly when the proxy is non-null,
  that is when \<^verbatim>\<open>Initialize\<close> found the portal, whether or not \<^verbatim>\<open>NewStream\<close> was
  called. So in every run that returns an exit code, \<^verbatim>\<open>CloseStream\<close> is called once
  if the portal was found and not at all otherwise; \<^verbatim>\<open>NewStream\<close> is called once,
  before it, exactly in the runs that return 0, and in those the portal was found. A run
  that registers and is then cancelled deregisters exactly once.
\<close>

theorem run_deregisters_iff_portal_found:
  "run k w argv (Streamer lport fport lfd ffd pid) = Some (Returns code, s') \<Longrightarrow>
   stream_calls (trace s') =
     (if code = 0 then [Ice_NewStream (streamEntry s')] else []) @
     (if portal s' then [Ice_CloseStream (streamEntry s')] else []) \<and>
   (code = 0 \<longrightarrow> portal s')"
proof -
  let ?s0 = "Streamer lport fport lfd ffd pid"
  assume a: "run k w argv ?s0 = Some (Returns code, s')"
  have s0: "\<not> portal ?s0" "trace ?s0 = []" by (simp_all add: Streamer_def)
  show ?thesis
  proof (cases "length argv < 3")
    case True
    with a have "code = 1" "s' = PrintUsage ?s0" by (auto simp: run_def)
    with PrintUsage_frame [of ?s0] s0 show ?thesis by (simp add: stream_calls_def)
  next
    case False
    let ?s1 = "?s0\<lparr>videoFilePath := argv ! 1, transport := ''tcp'', host := ''localhost'',
                    listenPort := 9600, ffmpegPort := 9601\<rparr>"
    let ?l = "\<lparr>l_videoSize = ''480x270'', l_bitRate = ''400k'', l_keywords = []\<rparr>"
    define P where "P = parse_options argv 3 (?s1, ?l)"
    from parse_options_frame [of argv 3 "(?s1, ?l)"] s0
    have fP: "ice_calls (trace (case_sum id fst P)) = []" "\<not> portal (case_sum id fst P)"
      by (simp_all add: P_def)
    have r0: "run k w argv ?s0 =
        (case P of
           Inl s2 \<Rightarrow> Some (Returns 1, s2)
         | Inr (s2, l2) \<Rightarrow>
             (case Initialize k w
                (s2\<lparr>streamEntry :=
                   \<lparr>streamName = argv ! 2,
                    endpoint = transport s2 @ ''://'' @ host s2 @ '':'' @ to_string (listenPort s2),
                    videoSize = l_videoSize l2, bitRate = l_bitRate l2,
                    keyword = keyword (streamEntry s2) @ getline_loop [] (l_keywords l2)\<rparr>\<rparr>) of
                None \<Rightarrow> None
              | Some (Throws, s4) \<Rightarrow> Some (Throws, s4)
              | Some (Execs, s4) \<Rightarrow> Some (Execs, s4)
              | Some (Returns True, s4) \<Rightarrow>
                  (case Run k w s4 of
                     None \<Rightarrow> None
                   | Some s5 \<Rightarrow> Some (run_close w 0 s5))
              | Some (Returns False, s4) \<Rightarrow>
                  Some (run_close w 1 (LOG_ERROR ''Streamer initialization failed'' [] s4))))"
      using False unfolding run_def P_def Let_def by simp
    show ?thesis
    proof (cases P)
      case (Inl s2)
      with a r0 have "code = 1" "s' = s2" by simp_all
      with fP Inl show ?thesis by (simp add: stream_calls_def)
    next
      case (Inr sl2)
      obtain s2 l2 where sl2: "sl2 = (s2, l2)" by (cases sl2)
      from fP Inr sl2 have f2: "ice_calls (trace s2) = []" "\<not> portal s2" by simp_all
      define E where "E =
        \<lparr>streamName = argv ! 2,
         endpoint = transport s2 @ ''://'' @ host s2 @ '':'' @ to_string (listenPort s2),
         videoSize = l_videoSize l2, bitRate = l_bitRate l2,
         keyword = keyword (streamEntry s2) @ getline_loop [] (l_keywords l2)\<rparr>"
      define s3 where "s3 = s2\<lparr>streamEntry := E\<rparr>"
      have f3: "stream_calls (trace s3) = []" "streamEntry s3 = E"
        using f2 by (simp_all add: s3_def stream_calls_def)
      have r: "run k w argv ?s0 =
        (case Initialize k w s3 of
           None \<Rightarrow> None
         | Some (Throws, s4) \<Rightarrow> Some (Throws, s4)
         | Some (Execs, s4) \<Rightarrow> Some (Execs, s4)
         | Some (Returns True, s4) \<Rightarrow>
             (case Run k w s4 of
                None \<Rightarrow> None
              | Some s5 \<Rightarrow> Some (run_close w 0 s5))
         | Some (Returns False, s4) \<Rightarrow>
             Some (run_close w 1 (LOG_ERROR ''Streamer initialization failed'' [] s4)))"
        using r0 Inr sl2 by (simp add: s3_def E_def)
      from a r obtain x s4 where I: "Initialize k w s3 = Some (x, s4)"
        by (cases "Initialize k w s3") auto
      from a r I obtain b where x: "x = Returns b"
        by (cases x) auto
      from Initialize_frame [OF I] x f3 have f4:
        "streamEntry s4 = E"
        "stream_calls (trace s4) = (if b then [Ice_NewStream E] else [])"
        "b \<longrightarrow> portal s4"
        by simp_all
      show ?thesis
      proof (cases b)
        case True
        from a r I x True obtain s5 where R: "Run k w s4 = Some s5"
          by (cases "Run k w s4") auto
        from Run_frame [OF R] f4 True have f5:
          "stream_calls (trace s5) = [Ice_NewStream E]" "portal s5" "streamEntry s5 = E"
          by simp_all
        from a r I x True R have "run_close w 0 s5 = (Returns code, s')" by simp
        from run_close_Returns [OF this] have "code = 0" "s' = snd (Close w s5)" by simp_all
        with Close_stream_calls [of w s5] f5 show ?thesis by simp
      next
        case False
        let ?s4' = "LOG_ERROR ''Streamer initialization failed'' [] s4"
        have f4': "stream_calls (trace ?s4') = []" "portal ?s4' = portal s4" "streamEntry ?s4' = E"
          using f4 False by (simp_all add: LOG_ERROR_def emit_def stream_calls_def)
        from a r I x False have "run_close w 1 ?s4' = (Returns code, s')" by simp
        from run_close_Returns [OF this] have "code = 1" "s' = snd (Close w ?s4')" by simp_all
        with Close_stream_calls [of w ?s4'] f4' show ?thesis by simp
      qed
    qed
  qed
qed

text \<open>
  C6 as stated fails: when the portal is found and the listen socket cannot be created,
  \<^verbatim>\<open>Initialize\<close> returns false before \<^verbatim>\<open>NewStream\<close>, and the cleanup still calls
  \<^verbatim>\<open>CloseStream\<close>, for a stream that was never registered.
\<close>

theorem run_no_socket_counterexample:
  "outcome_and_calls (run 0 world_no_socket argv_defaults (Streamer 0 0 0 0 0)) =
     Some (Returns 1,
       [ICE (Ice_propertyToProxy ''Portal.Proxy''), ICE Ice_checkedCast, OS Sys_socket_nonblock,
        ICE (Ice_CloseStream entry1)])"
  by (simp add: outcome_and_calls_def run_defaults Initialize_def Initialize_portal_def
        Initialize_listen_def ice_def sys_def emit_def LOG_INFO_def LOG_ERROR_def Let_def
        world_no_socket_def streamer_configured_def run_close_def Close_def
        Close_clients_eq [OF refl] Close_socket_def Close_ffmpeg_def)

lemma run_sigint_reaches_Close:
  "\<exists>s5. run 5 world_sigint argv_defaults (Streamer 0 0 0 0 0) =
           Some (run_close world_sigint 0 s5)"
proof -
  have five: "(5::nat) = Suc (Suc (Suc (Suc (Suc 0))))" by simp
  show ?thesis
    apply (simp add: run_defaults Initialize_def Initialize_portal_def Initialize_listen_def
        Initialize_fork_def Initialize_socket_def ice_def sys_def sys_read_def
        poll_early_exit_def emit_def LOG_INFO_def LOG_ERROR_def Let_def world_sigint_def
        streamer_configured_def htons_def ffmpegHost_def LISTEN_BACKLOG_def
        Run_def Run_cycle_def Run_accept_def Run_broadcastAndPrune_def sleepTime_def
        tickTimer_def BUFFER_SIZE_def five)
    apply (rule exI, rule refl)
    done
qed


lemma run_close_sigint:
  "run_close world_sigint c s = (Returns c, snd (Close world_sigint s))"
proof -
  from Close_eq [of world_sigint s] have
    "fst (Close world_sigint s) =
       (if portal s \<and> CloseStream_raises world_sigint s then Throws else Returns ())"
    by blast
  moreover have "\<not> CloseStream_raises world_sigint s"
    by (simp add: CloseStream_raises_def world_sigint_def)
  ultimately have "fst (Close world_sigint s) = Returns ()" by simp
  then show ?thesis
    by (cases "Close world_sigint s") (simp add: run_close_def)
qed

text \<open>
  A run with the defaults that registers, relays one chunk and is cancelled during the
  second read: it returns 0, with one registration and one deregistration.
\<close>

theorem run_deregisters_iff_portal_found_witness:
  "\<exists>s'. run 5 world_sigint argv_defaults (Streamer 0 0 0 0 0) = Some (Returns 0, s') \<and>
      stream_calls (trace s') = [Ice_NewStream (streamEntry s'), Ice_CloseStream (streamEntry s')] \<and>
      portal s'"
proof -
  from run_sigint_reaches_Close obtain s5 where
    "run 5 world_sigint argv_defaults (Streamer 0 0 0 0 0) = Some (run_close world_sigint 0 s5)"
    ..
  then have h: "run 5 world_sigint argv_defaults (Streamer 0 0 0 0 0) =
      Some (Returns 0, snd (Close world_sigint s5))"
    by (simp add: run_close_sigint)
  from run_deregisters_iff_portal_found [OF h] h show ?thesis
    by (intro exI [of _ "snd (Close world_sigint s5)"]) simp
qed

end
